theory Spec2Isabelle
  imports Main
begin

section \<open>The Node.js Turbopack runtime (nodejs/runtime.ts)\<close>

text \<open>
  A shallow embedding of \<^verbatim>\<open>turbopack-ecmascript-runtime/js/src/nodejs/runtime.ts\<close>.
  The four process-wide registries of the file (\<^verbatim>\<open>moduleFactories\<close>,
  \<^verbatim>\<open>moduleCache\<close>, \<^verbatim>\<open>loadedChunks\<close>, \<^verbatim>\<open>chunkCache\<close>) are the fields of one
  state record that every function takes and returns. JavaScript objects whose identity
  matters (module records, exports objects, rejected promises) live in an explicit
  store addressed by references; a \<^verbatim>\<open>throw\<close> is the \<open>Inl\<close> of a sum.
\<close>

subsection \<open>Data model\<close>

type_synonym module_id = string
type_synonym chunk_path = string
type_synonym ref = nat

text \<open>\<^verbatim>\<open>SourceInfo\<close>: the union tagged by \<^verbatim>\<open>SourceType.Runtime\<close> / \<^verbatim>\<open>SourceType.Parent\<close>.\<close>

datatype source_info = Runtime chunk_path | Parent module_id

text \<open>
  JavaScript values, as far as the file meets them: what a factory or \<^verbatim>\<open>require\<close> throws
  (any value: \<^verbatim>\<open>catch (error)\<close> stores it by \<^verbatim>\<open>module.error = error as any\<close>), what
  \<^verbatim>\<open>module.error\<close> holds (\<open>Undefined\<close> at first) and what a factory exports.
  \<open>Error msg cause\<close> is an \<^verbatim>\<open>Error\<close> object with its message and its \<^verbatim>\<open>cause\<close> option;
  numbers are the integers and \<^verbatim>\<open>NaN\<close>. \<open>truthy\<close> is the test that \<^verbatim>\<open>if (v)\<close> makes:
  \<^verbatim>\<open>undefined\<close>, \<^verbatim>\<open>null\<close>, \<^verbatim>\<open>false\<close>, \<^verbatim>\<open>0\<close>, \<^verbatim>\<open>NaN\<close>, \<^verbatim>\<open>0n\<close> and \<^verbatim>\<open>""\<close> are falsy,
  every object is truthy.
\<close>

datatype js_value =
    Undefined
  | Null
  | JSBoolean bool
  | JSNumber int
  | NaN
  | JSBigInt int
  | JSString string
  | JSObject ref
  | Error string "js_value option"

fun truthy :: "js_value \<Rightarrow> bool" where
  "truthy Undefined = False"
| "truthy Null = False"
| "truthy (JSBoolean b) = b"
| "truthy (JSNumber n) = (n \<noteq> 0)"
| "truthy NaN = False"
| "truthy (JSBigInt n) = (n \<noteq> 0)"
| "truthy (JSString s) = (s \<noteq> [])"
| "truthy (JSObject r) = True"
| "truthy (Error msg cause) = True"

text \<open>
  A module factory is code of the bundler's output, an input of the runtime. Its body
  is a list of statements over the context object that \<^verbatim>\<open>instantiateModule\<close> passes:
  \<^item> \<open>SRequire i\<close>: \<^verbatim>\<open>ctx.r(i)\<close>;
  \<^item> \<open>SExportRequire k i\<close>: \<^verbatim>\<open>ctx.e[k] = ctx.r(i)\<close>;
  \<^item> \<open>SExport k v\<close>: \<^verbatim>\<open>ctx.e[k] = v\<close>;
  \<^item> \<open>SAssignExports\<close>: \<^verbatim>\<open>ctx.m.exports = {}\<close> (CommonJS \<^verbatim>\<open>module.exports = ...\<close>);
  \<^item> \<open>SThrow v\<close>: \<^verbatim>\<open>throw v\<close>, for any value \<open>v\<close>;
  \<^item> \<open>SLoadChunkAsync d\<close>: \<^verbatim>\<open>ctx.l(d)\<close>;
  \<^item> \<open>SClearChunkCache\<close>: \<^verbatim>\<open>ctx.C()\<close>.
  The number of a factory stands for the identity of the function object.
\<close>

datatype chunk_data = ChunkPathString chunk_path | ChunkDataObject chunk_path

datatype stmt =
    SRequire module_id
  | SExportRequire string module_id
  | SExport string string
  | SAssignExports
  | SThrow js_value
  | SLoadChunkAsync chunk_data
  | SClearChunkCache

datatype module_factory = ModuleFactory nat "stmt list"

text \<open>An entry of a chunk: \<^verbatim>\<open>ModuleFactory | [ModuleFactory, ModuleId[]]\<close>.\<close>

datatype compressed_factory = Plain module_factory | Shared module_factory "module_id list"

text \<open>\<^verbatim>\<open>Object.entries(chunkModules)\<close>, in its order.\<close>

type_synonym chunk_table = "(module_id \<times> compressed_factory) list"

text \<open>
  The promises of the file: the two constants \<^verbatim>\<open>unsupportedLoadChunk\<close> and
  \<^verbatim>\<open>loadedChunk\<close> (both \<^verbatim>\<open>Promise.resolve(undefined)\<close>, two distinct objects), and the
  promises made by \<^verbatim>\<open>Promise.reject(new Error(...))\<close>, each a new object.
\<close>

datatype promise = UnsupportedLoadChunk | LoadedChunk | Rejection ref js_value

fun rejection :: "promise \<Rightarrow> js_value option" where
  "rejection UnsupportedLoadChunk = None"
| "rejection LoadedChunk = None"
| "rejection (Rejection r e) = Some e"

text \<open>The \<^verbatim>\<open>Module\<close> object; \<^verbatim>\<open>id\<close> is the field \<open>mid\<close>.\<close>

record module_record =
  exports :: ref
  error :: js_value
  loaded :: bool
  mid :: module_id
  namespaceObject :: "ref option"

text \<open>
  What happened, in order: a history variable that no function reads. It counts the
  calls of \<^verbatim>\<open>require(resolved)\<close> and of module factories, and keeps what each
  \<^verbatim>\<open>ctx.r\<close> returned: \<open>RequireReturned p i r l\<close> says that module \<open>p\<close> required \<open>i\<close>
  and received the exports object \<open>r\<close> of a record whose \<^verbatim>\<open>loaded\<close> was \<open>l\<close>;
  \<open>ExportsAssigned i r\<close> says that the factory of \<open>i\<close> assigned the new object \<open>r\<close> to
  \<^verbatim>\<open>module.exports\<close>.
\<close>

datatype event =
    ChunkRequired chunk_path
  | FactoryCalled module_id
  | RequireReturned module_id module_id ref bool
  | ExportsAssigned module_id ref

record runtime_state =
  moduleFactories :: "module_id \<rightharpoonup> module_factory"
  moduleCache :: "module_id \<rightharpoonup> ref"
  loadedChunks :: "chunk_path set"
  chunkCache :: "chunk_path \<rightharpoonup> promise"
  modules :: "ref \<Rightarrow> module_record"
  objects :: "ref \<Rightarrow> (string \<rightharpoonup> js_value)"
  nextRef :: ref
  history :: "event list"

text \<open>
  What the file takes from its surroundings. \<open>requireResolved p\<close> is
  \<^verbatim>\<open>require(path.resolve(RUNTIME_ROOT, p))\<close>: it throws, or gives the chunk's table.

  Modelled from the spec: \<open>interopEsm\<close> (shared/runtime-utils.ts is not part of the
  sources) "merges the two so all holders observe consistent bindings"; it receives the
  store of objects, the raw exports and the namespace object, and returns the store.
\<close>

record env =
  requireResolved :: "chunk_path \<Rightarrow> js_value + chunk_table"
  interopEsm :: "(ref \<Rightarrow> (string \<rightharpoonup> js_value)) \<Rightarrow> ref \<Rightarrow> ref \<Rightarrow> (ref \<Rightarrow> (string \<rightharpoonup> js_value))"

definition initialState :: runtime_state where
  "initialState =
     \<lparr>moduleFactories = Map.empty, moduleCache = Map.empty, loadedChunks = {},
      chunkCache = Map.empty,
      modules = (\<lambda>_. \<lparr>exports = 0, error = Undefined, loaded = False, mid = [],
                       namespaceObject = None\<rparr>),
      objects = (\<lambda>_. Map.empty), nextRef = 0, history = []\<rparr>"

subsection \<open>Provenance\<close>

fun stringifySourceInfo :: "source_info \<Rightarrow> string" where
  "stringifySourceInfo (Runtime chunkPath) = ''runtime for chunk '' @ chunkPath"
| "stringifySourceInfo (Parent parentId) = ''parent module '' @ parentId"

subsection \<open>isJs\<close>

text \<open>
  The regular expression \<^verbatim>\<open>/\.js(?:\?[^#]*)?(?:#.*)?$/\<close> as a term, and a backtracking
  matcher for the constructs it uses. A star is only ever applied to a class of
  characters. Strings are lists of 8-bit characters, so of the line terminators that
  \<^verbatim>\<open>.\<close> excludes only \<^verbatim>\<open>\n\<close> and \<^verbatim>\<open>\r\<close> exist here.
\<close>

datatype char_class = Exactly char | AnyExcept "char list"

datatype regex =
    Atom char_class
  | StarAtom char_class
  | Opt regex
  | Seq regex regex
  | EndOfInput

fun inClass :: "char_class \<Rightarrow> char \<Rightarrow> bool" where
  "inClass (Exactly c) x = (x = c)"
| "inClass (AnyExcept cs) x = (x \<notin> set cs)"

text \<open>\<open>starRests c s\<close>: what can remain of \<open>s\<close> after \<^verbatim>\<open>c*\<close>, the greedy choice first.\<close>

fun starRests :: "char_class \<Rightarrow> string \<Rightarrow> string list" where
  "starRests c [] = [[]]"
| "starRests c (x # xs) = (if inClass c x then starRests c xs @ [x # xs] else [x # xs])"

text \<open>\<open>rests r s\<close>: what can remain of \<open>s\<close> after a match of \<open>r\<close> at its start.\<close>

fun rests :: "regex \<Rightarrow> string \<Rightarrow> string list" where
  "rests (Atom c) s = (case s of [] \<Rightarrow> [] | x # xs \<Rightarrow> if inClass c x then [xs] else [])"
| "rests (StarAtom c) s = starRests c s"
| "rests (Opt r) s = rests r s @ [s]"
| "rests (Seq r1 r2) s = concat (map (rests r2) (rests r1 s))"
| "rests EndOfInput s = (if s = [] then [[]] else [])"

text \<open>\<^verbatim>\<open>RegExp.prototype.test\<close>: a match may start at any index.\<close>

fun regexTest :: "regex \<Rightarrow> string \<Rightarrow> bool" where
  "regexTest r [] = (rests r [] \<noteq> [])"
| "regexTest r (x # xs) = (rests r (x # xs) \<noteq> [] \<or> regexTest r xs)"

definition lineTerminators :: "char list" where
  "lineTerminators = [CHR 0x0A, CHR 0x0D]"

definition regexJsUrl :: regex where
  "regexJsUrl =
     Seq (Atom (Exactly CHR ''.'')) (Seq (Atom (Exactly CHR ''j'')) (Seq (Atom (Exactly CHR ''s''))
       (Seq (Opt (Seq (Atom (Exactly CHR ''?'')) (StarAtom (AnyExcept ''#''))))
         (Seq (Opt (Seq (Atom (Exactly CHR ''#'')) (StarAtom (AnyExcept lineTerminators))))
           EndOfInput))))"

definition isJs :: "string \<Rightarrow> bool" where
  "isJs chunkUrlOrPath = regexTest regexJsUrl chunkUrlOrPath"

text \<open>
  The words of the specification: the path ends with \<^verbatim>\<open>.js\<close>, optionally followed by a
  \<^verbatim>\<open>?query\<close> (that holds no \<^verbatim>\<open>#\<close>) and/or a \<^verbatim>\<open>#fragment\<close> (that holds no line
  terminator).
\<close>

definition isQuery :: "string \<Rightarrow> bool" where
  "isQuery q = (case q of [] \<Rightarrow> False | x # xs \<Rightarrow> x = CHR ''?'' \<and> CHR ''#'' \<notin> set xs)"

definition isFragment :: "string \<Rightarrow> bool" where
  "isFragment f =
     (case f of [] \<Rightarrow> False | x # xs \<Rightarrow> x = CHR ''#'' \<and> set xs \<inter> set lineTerminators = {})"

definition endsWithJsQueryFragment :: "string \<Rightarrow> bool" where
  "endsWithJsQueryFragment p =
     (\<exists>base q f. p = base @ ''.js'' @ q @ f \<and> (q = [] \<or> isQuery q) \<and> (f = [] \<or> isFragment f))"

subsection \<open>The factory registry\<close>

text \<open>The inner loop \<^verbatim>\<open>for (const otherModuleId of otherIds)\<close>.\<close>

fun registerOtherIds ::
  "module_factory \<Rightarrow> module_id list \<Rightarrow> (module_id \<rightharpoonup> module_factory) \<Rightarrow> (module_id \<rightharpoonup> module_factory)"
where
  "registerOtherIds moduleFactoryFn [] mf = mf"
| "registerOtherIds moduleFactoryFn (otherModuleId # otherIds) mf =
     registerOtherIds moduleFactoryFn otherIds (mf(otherModuleId \<mapsto> moduleFactoryFn))"

text \<open>The body of the loop over the entries, the same in both loaders.\<close>

fun registerEntry ::
  "module_id \<times> compressed_factory \<Rightarrow> (module_id \<rightharpoonup> module_factory) \<Rightarrow> (module_id \<rightharpoonup> module_factory)"
where
  "registerEntry (moduleId, moduleFactory) mf =
     (if mf moduleId = None then
        (case moduleFactory of
           Shared moduleFactoryFn otherIds \<Rightarrow>
             registerOtherIds moduleFactoryFn otherIds (mf(moduleId \<mapsto> moduleFactoryFn))
         | Plain f \<Rightarrow> mf(moduleId \<mapsto> f))
      else mf)"

fun registerEntries ::
  "chunk_table \<Rightarrow> (module_id \<rightharpoonup> module_factory) \<Rightarrow> (module_id \<rightharpoonup> module_factory)"
where
  "registerEntries [] mf = mf"
| "registerEntries (entry # entries) mf = registerEntries entries (registerEntry entry mf)"

subsection \<open>The chunk loader\<close>

definition clearChunkCache :: "runtime_state \<Rightarrow> runtime_state" where
  "clearChunkCache s = s\<lparr>chunkCache := Map.empty\<rparr>"

definition failedToLoad :: "chunk_path \<Rightarrow> source_info option \<Rightarrow> js_value \<Rightarrow> js_value" where
  "failedToLoad chunkPath source e =
     Error (''Failed to load chunk '' @ chunkPath @
            (case source of None \<Rightarrow> [] | Some src \<Rightarrow> '' from '' @ stringifySourceInfo src))
           (Some e)"

definition loadChunkPath ::
  "env \<Rightarrow> chunk_path \<Rightarrow> source_info option \<Rightarrow> runtime_state \<Rightarrow> (js_value + unit) \<times> runtime_state"
where
  "loadChunkPath E chunkPath source s =
     (if \<not> isJs chunkPath then (Inr (), s)
      else if chunkPath \<in> loadedChunks s then (Inr (), s)
      else
        (let s1 = s\<lparr>history := history s @ [ChunkRequired chunkPath]\<rparr> in
         case requireResolved E chunkPath of
           Inl e \<Rightarrow> (Inl (failedToLoad chunkPath source e), s1)
         | Inr chunkModules \<Rightarrow>
             (Inr (),
              s1\<lparr>moduleFactories := registerEntries chunkModules (moduleFactories s1),
                 loadedChunks := insert chunkPath (loadedChunks s1)\<rparr>)))"

fun chunkPathOf :: "chunk_data \<Rightarrow> chunk_path" where
  "chunkPathOf (ChunkPathString p) = p"
| "chunkPathOf (ChunkDataObject p) = p"

definition loadChunk ::
  "env \<Rightarrow> chunk_data \<Rightarrow> source_info option \<Rightarrow> runtime_state \<Rightarrow> (js_value + unit) \<times> runtime_state"
where
  "loadChunk E chunkData source s = loadChunkPath E (chunkPathOf chunkData) source s"

definition loadChunkUncached ::
  "env \<Rightarrow> chunk_path \<Rightarrow> runtime_state \<Rightarrow> (js_value + unit) \<times> runtime_state"
where
  "loadChunkUncached E chunkPath s =
     (let s1 = s\<lparr>history := history s @ [ChunkRequired chunkPath]\<rparr> in
      case requireResolved E chunkPath of
        Inl e \<Rightarrow> (Inl e, s1)
      | Inr chunkModules \<Rightarrow>
          (Inr (), s1\<lparr>moduleFactories := registerEntries chunkModules (moduleFactories s1)\<rparr>))"

definition loadChunkAsync ::
  "env \<Rightarrow> source_info \<Rightarrow> chunk_data \<Rightarrow> runtime_state \<Rightarrow> promise \<times> runtime_state"
where
  "loadChunkAsync E source chunkData s =
     (let chunkPath = chunkPathOf chunkData in
      if \<not> isJs chunkPath then (UnsupportedLoadChunk, s)
      else
        (case chunkCache s chunkPath of
           Some entry \<Rightarrow> (entry, s)
         | None \<Rightarrow>
             (case loadChunkUncached E chunkPath s of
                (Inr u, s1) \<Rightarrow> (LoadedChunk, s1\<lparr>chunkCache := (chunkCache s1)(chunkPath \<mapsto> LoadedChunk)\<rparr>)
              | (Inl e, s1) \<Rightarrow>
                  (let entry = Rejection (nextRef s1) (failedToLoad chunkPath (Some source) e) in
                   (entry, s1\<lparr>chunkCache := (chunkCache s1)(chunkPath \<mapsto> entry),
                               nextRef := Suc (nextRef s1)\<rparr>)))))"

subsection \<open>The module instantiator\<close>

fun instantiationReason :: "source_info \<Rightarrow> string" where
  "instantiationReason (Runtime chunkPath) = ''as a runtime entry of chunk '' @ chunkPath"
| "instantiationReason (Parent parentId) = ''because it was required from module '' @ parentId"

definition factoryNotAvailable :: "module_id \<Rightarrow> source_info \<Rightarrow> js_value" where
  "factoryNotAvailable moduleId source =
     Error (''Module '' @ moduleId @ '' was instantiated '' @ instantiationReason source @
            '', but the module factory is not available. It might have been deleted in an HMR update.'')
           None"

text \<open>The object literal of \<^verbatim>\<open>instantiateModule\<close>, with its new exports object.\<close>

definition newModule :: "module_id \<Rightarrow> ref \<Rightarrow> module_record" where
  "newModule moduleId e =
     \<lparr>exports = e, error = Undefined, loaded = False, mid = moduleId, namespaceObject = None\<rparr>"


text \<open>
  A factory receives the context object; of its members, \<open>callFactory\<close> takes \<^verbatim>\<open>r\<close>
  (the bound \<^verbatim>\<open>commonJsRequire\<close>) as its first argument, \<^verbatim>\<open>m\<close> (the module) and
  \<^verbatim>\<open>e\<close> (\<^verbatim>\<open>module.exports\<close> at the time of the call); \<^verbatim>\<open>l\<close> and \<^verbatim>\<open>C\<close> are
  \<^verbatim>\<open>loadChunkAsync\<close> bound to the parent source and \<^verbatim>\<open>clearChunkCache\<close>. It runs the
  statements of the factory's body in order.
\<close>

fun callFactory ::
  "(module_id \<Rightarrow> runtime_state \<Rightarrow> ((js_value + ref) \<times> runtime_state) option) \<Rightarrow>
   env \<Rightarrow> module_id \<Rightarrow> ref \<Rightarrow> ref \<Rightarrow> stmt list \<Rightarrow> runtime_state \<Rightarrow>
   ((js_value + unit) \<times> runtime_state) option"
where
  "callFactory r E moduleId m e [] s = Some (Inr (), s)"
| "callFactory r E moduleId m e (SRequire i # body) s =
     (case r i s of
        None \<Rightarrow> None
      | Some (Inl err, s1) \<Rightarrow> Some (Inl err, s1)
      | Some (Inr x, s1) \<Rightarrow> callFactory r E moduleId m e body s1)"
| "callFactory r E moduleId m e (SExportRequire k i # body) s =
     (case r i s of
        None \<Rightarrow> None
      | Some (Inl err, s1) \<Rightarrow> Some (Inl err, s1)
      | Some (Inr x, s1) \<Rightarrow>
          callFactory r E moduleId m e body
            (s1\<lparr>objects := (objects s1)(e := (objects s1 e)(k \<mapsto> JSObject x))\<rparr>))"
| "callFactory r E moduleId m e (SExport k v # body) s =
     callFactory r E moduleId m e body
       (s\<lparr>objects := (objects s)(e := (objects s e)(k \<mapsto> JSString v))\<rparr>)"
| "callFactory r E moduleId m e (SAssignExports # body) s =
     callFactory r E moduleId m e body
       (s\<lparr>modules := (modules s)(m := (modules s m)\<lparr>exports := nextRef s\<rparr>),
          objects := (objects s)(nextRef s := Map.empty),
          nextRef := Suc (nextRef s),
          history := history s @ [ExportsAssigned moduleId (nextRef s)]\<rparr>)"
| "callFactory r E moduleId m e (SThrow err # body) s = Some (Inl err, s)"
| "callFactory r E moduleId m e (SLoadChunkAsync chunkData # body) s =
     callFactory r E moduleId m e body (snd (loadChunkAsync E (Parent moduleId) chunkData s))"
| "callFactory r E moduleId m e (SClearChunkCache # body) s =
     callFactory r E moduleId m e body (clearChunkCache s)"

text \<open>
  A factory calls back into the runtime through \<^verbatim>\<open>r\<close>, so \<^verbatim>\<open>instantiateModule\<close>,
  \<^verbatim>\<open>getOrInstantiateModuleFromParent\<close> and \<^verbatim>\<open>commonJsRequire\<close> are one recursion. The
  first argument bounds the depth of nested factory calls; the result \<open>None\<close> says that
  the bound was reached.

  Modelled from the spec: \<open>commonJsRequire\<close> (shared/runtime-utils.ts is not part of the
  sources), the "binder for synchronous requires of other ids (auto-instantiating them
  on demand via the same algorithm, tagged with ParentImport{id} provenance)": it
  returns the exports of the record that \<^verbatim>\<open>getOrInstantiateModuleFromParent\<close> gives.
\<close>

fun instantiateModule ::
  "nat \<Rightarrow> env \<Rightarrow> module_id \<Rightarrow> source_info \<Rightarrow> runtime_state \<Rightarrow> ((js_value + ref) \<times> runtime_state) option"
and getOrInstantiateModuleFromParent ::
  "nat \<Rightarrow> env \<Rightarrow> module_id \<Rightarrow> ref \<Rightarrow> runtime_state \<Rightarrow> ((js_value + ref) \<times> runtime_state) option"
and commonJsRequire ::
  "nat \<Rightarrow> env \<Rightarrow> ref \<Rightarrow> module_id \<Rightarrow> runtime_state \<Rightarrow> ((js_value + ref) \<times> runtime_state) option"
where
  "instantiateModule fuel E moduleId source s =
     (case moduleFactories s moduleId of
        None \<Rightarrow> Some (Inl (factoryNotAvailable moduleId source), s)
      | Some (ModuleFactory fn body) \<Rightarrow>
          (case fuel of
             0 \<Rightarrow> None
           | Suc fuel' \<Rightarrow>
               (let m = nextRef s; e = Suc (nextRef s);
                    s1 = s\<lparr>modules := (modules s)(m := newModule moduleId e),
                           objects := (objects s)(e := Map.empty),
                           nextRef := Suc (Suc (nextRef s)),
                           moduleCache := (moduleCache s)(moduleId \<mapsto> m),
                           history := history s @ [FactoryCalled moduleId]\<rparr>
                in case callFactory (\<lambda>i s'. commonJsRequire fuel' E m i s') E moduleId m e body s1 of
                     None \<Rightarrow> None
                   | Some (Inl err, s2) \<Rightarrow>
                       Some (Inl err, s2\<lparr>modules := (modules s2)(m := (modules s2 m)\<lparr>error := err\<rparr>)\<rparr>)
                   | Some (Inr u, s2) \<Rightarrow>
                       (let s3 = s2\<lparr>modules := (modules s2)(m := (modules s2 m)\<lparr>loaded := True\<rparr>)\<rparr>
                        in Some (Inr m,
                             case namespaceObject (modules s3 m) of
                               None \<Rightarrow> s3
                             | Some ns \<Rightarrow>
                                 if exports (modules s3 m) \<noteq> ns
                                 then s3\<lparr>objects := interopEsm E (objects s3) (exports (modules s3 m)) ns\<rparr>
                                 else s3)))))"
| "getOrInstantiateModuleFromParent fuel E moduleId sourceModule s =
     (case moduleCache s moduleId of
        Some m \<Rightarrow> Some (Inr m, s)
      | None \<Rightarrow> instantiateModule fuel E moduleId (Parent (mid (modules s sourceModule))) s)"
| "commonJsRequire fuel E sourceModule moduleId s =
     (case getOrInstantiateModuleFromParent fuel E moduleId sourceModule s of
        None \<Rightarrow> None
      | Some (Inl err, s1) \<Rightarrow> Some (Inl err, s1)
      | Some (Inr m, s1) \<Rightarrow>
          Some (Inr (exports (modules s1 m)),
                s1\<lparr>history := history s1 @
                   [RequireReturned (mid (modules s1 sourceModule)) moduleId
                      (exports (modules s1 m)) (loaded (modules s1 m))]\<rparr>))"

definition instantiateRuntimeModule ::
  "nat \<Rightarrow> env \<Rightarrow> module_id \<Rightarrow> chunk_path \<Rightarrow> runtime_state \<Rightarrow> ((js_value + ref) \<times> runtime_state) option"
where
  "instantiateRuntimeModule fuel E moduleId chunkPath s =
     instantiateModule fuel E moduleId (Runtime chunkPath) s"

definition getOrInstantiateRuntimeModule ::
  "nat \<Rightarrow> env \<Rightarrow> module_id \<Rightarrow> chunk_path \<Rightarrow> runtime_state \<Rightarrow> ((js_value + ref) \<times> runtime_state) option"
where
  "getOrInstantiateRuntimeModule fuel E moduleId chunkPath s =
     (case moduleCache s moduleId of
        Some m \<Rightarrow>
          (if truthy (error (modules s m)) then Some (Inl (error (modules s m)), s)
           else Some (Inr m, s))
      | None \<Rightarrow> instantiateRuntimeModule fuel E moduleId chunkPath s)"

subsection \<open>Sequences of calls\<close>

text \<open>
  The functions of the file that the host program and the factories call. (The host
  never calls \<^verbatim>\<open>instantiateModule\<close> itself: only the two lookups do.)
\<close>

datatype call =
    LoadChunk chunk_data "source_info option"
  | LoadChunkAsync source_info chunk_data
  | ClearChunkCache
  | GetOrInstantiateRuntimeModule module_id chunk_path
  | GetOrInstantiateModuleFromParent module_id ref

fun perform :: "nat \<Rightarrow> env \<Rightarrow> call \<Rightarrow> runtime_state \<Rightarrow> runtime_state option" where
  "perform fuel E (LoadChunk chunkData source) s = Some (snd (loadChunk E chunkData source s))"
| "perform fuel E (LoadChunkAsync source chunkData) s = Some (snd (loadChunkAsync E source chunkData s))"
| "perform fuel E ClearChunkCache s = Some (clearChunkCache s)"
| "perform fuel E (GetOrInstantiateRuntimeModule moduleId chunkPath) s =
     map_option snd (getOrInstantiateRuntimeModule fuel E moduleId chunkPath s)"
| "perform fuel E (GetOrInstantiateModuleFromParent moduleId sourceModule) s =
     map_option snd (getOrInstantiateModuleFromParent fuel E moduleId sourceModule s)"

text \<open>Calls in order, each with its own bound and surroundings.\<close>

fun performAll :: "(nat \<times> env \<times> call) list \<Rightarrow> runtime_state \<Rightarrow> runtime_state option" where
  "performAll [] s = Some s"
| "performAll ((fuel, E, c) # calls) s =
     (case perform fuel E c s of None \<Rightarrow> None | Some s1 \<Rightarrow> performAll calls s1)"

subsection \<open>Alias ids of a chunk\<close>

fun otherIdsOf :: "compressed_factory \<Rightarrow> module_id list" where
  "otherIdsOf (Plain f) = []"
| "otherIdsOf (Shared f otherIds) = otherIds"

definition aliasIds :: "chunk_table \<Rightarrow> module_id set" where
  "aliasIds chunkModules = (\<Union>entry \<in> set chunkModules. set (otherIdsOf (snd entry)))"

fun factoryOf :: "compressed_factory \<Rightarrow> module_factory" where
  "factoryOf (Plain f) = f"
| "factoryOf (Shared f otherIds) = f"

text \<open>
  \<open>assignedAsAlias i chunkModules mf\<close>: the loop over the table, started with the registry
  \<open>mf\<close>, reaches an entry that lists \<open>i\<close> as an alias id while the primary id of the
  entry has no factory (so that the inner loop assigns \<open>i\<close>).
\<close>

fun assignedAsAlias :: "module_id \<Rightarrow> chunk_table \<Rightarrow> (module_id \<rightharpoonup> module_factory) \<Rightarrow> bool" where
  "assignedAsAlias i [] mf = False"
| "assignedAsAlias i (entry # entries) mf =
     ((mf (fst entry) = None \<and> i \<in> set (otherIdsOf (snd entry))) \<or>
      assignedAsAlias i entries (registerEntry entry mf))"

subsection \<open>Example chunks\<close>

definition factoryA :: module_factory where
  "factoryA = ModuleFactory 1 [SExportRequire ''b'' ''B'', SExport ''name'' ''A'']"

definition factoryB :: module_factory where
  "factoryB = ModuleFactory 2 [SExportRequire ''a'' ''A'']"

definition factoryT :: module_factory where
  "factoryT = ModuleFactory 3 [SThrow (Error ''boom'' None)]"

definition factoryS :: module_factory where
  "factoryS = ModuleFactory 4 []"

definition factoryOld :: module_factory where
  "factoryOld = ModuleFactory 5 []"

definition factoryR :: module_factory where
  "factoryR = ModuleFactory 6 [SRequire ''Q'', SAssignExports]"

definition factoryQ :: module_factory where
  "factoryQ = ModuleFactory 7 [SExportRequire ''r'' ''R'']"

definition factoryN :: module_factory where
  "factoryN = ModuleFactory 8 [SThrow Null]"

definition factoryE :: module_factory where
  "factoryE = ModuleFactory 9 [SAssignExports, SExportRequire ''f'' ''F'']"

definition factoryF :: module_factory where
  "factoryF = ModuleFactory 10 [SExportRequire ''e'' ''E'']"

definition exampleEnv :: env where
  "exampleEnv =
     \<lparr>requireResolved = (\<lambda>p.
        if p = ''cycle.js'' then Inr [(''A'', Plain factoryA), (''B'', Plain factoryB)]
        else if p = ''shared.js'' then Inr [(''X'', Shared factoryS [''Y'', ''Z''])]
        else if p = ''shared2.js'' then Inr [(''X'', Shared factoryOld [''Y'', ''Z''])]
        else if p = ''old.js'' then Inr [(''Y'', Plain factoryOld)]
        else if p = ''throws.js'' then Inr [(''T'', Plain factoryT)]
        else if p = ''reassign.js'' then Inr [(''R'', Plain factoryR), (''Q'', Plain factoryQ)]
        else if p = ''early.js'' then Inr [(''E'', Plain factoryE), (''F'', Plain factoryF)]
        else if p = ''null.js'' then Inr [(''N'', Plain factoryN)]
        else if p = ''stolen.js''
          then Inr [(''0'', Shared factoryOld [''X'']), (''X'', Shared factoryS [''Y'', ''Z''])]
        else if p = ''later.js''
          then Inr [(''X'', Shared factoryS [''Y'', ''Z'']), (''D'', Shared factoryOld [''Y''])]
        else Inl (Error ''Cannot find module'' None)),
      interopEsm = (\<lambda>h raw ns. h)\<rparr>"

definition loadedExample :: "chunk_path \<Rightarrow> runtime_state" where
  "loadedExample p = snd (loadChunkPath exampleEnv p None initialState)"

definition missingRejected :: "promise \<times> runtime_state" where
  "missingRejected =
     loadChunkAsync exampleEnv (Parent ''A'') (ChunkPathString ''missing.js'') initialState"

subsection \<open>The state changes of an instantiation\<close>

text \<open>
  Names for the state changes that \<^verbatim>\<open>instantiateModule\<close>, \<^verbatim>\<open>commonJsRequire\<close> and the
  statements of a factory make, as the lemmas about them use them: the new record put
  into the cache (\<open>created\<close>), the \<^verbatim>\<open>catch\<close> block (\<open>failed\<close>), the lines after the
  \<^verbatim>\<open>try\<close> (\<open>succeeded\<close>), the entry of the history for a returned require
  (\<open>returned\<close>), and the two assignments of a factory (\<open>assigned\<close>, \<open>exported\<close>).
\<close>

definition created :: "module_id \<Rightarrow> runtime_state \<Rightarrow> runtime_state" where
  "created moduleId s =
     s\<lparr>modules := (modules s)(nextRef s := newModule moduleId (Suc (nextRef s))),
       objects := (objects s)(Suc (nextRef s) := Map.empty),
       nextRef := Suc (Suc (nextRef s)),
       moduleCache := (moduleCache s)(moduleId \<mapsto> nextRef s),
       history := history s @ [FactoryCalled moduleId]\<rparr>"

definition failed :: "ref \<Rightarrow> js_value \<Rightarrow> runtime_state \<Rightarrow> runtime_state" where
  "failed m err s = s\<lparr>modules := (modules s)(m := (modules s m)\<lparr>error := err\<rparr>)\<rparr>"

definition succeeded :: "env \<Rightarrow> ref \<Rightarrow> runtime_state \<Rightarrow> runtime_state" where
  "succeeded E m s =
     (let s3 = s\<lparr>modules := (modules s)(m := (modules s m)\<lparr>loaded := True\<rparr>)\<rparr>
      in case namespaceObject (modules s3 m) of
           None \<Rightarrow> s3
         | Some ns \<Rightarrow>
             if exports (modules s3 m) \<noteq> ns
             then s3\<lparr>objects := interopEsm E (objects s3) (exports (modules s3 m)) ns\<rparr>
             else s3)"

definition returned :: "ref \<Rightarrow> module_id \<Rightarrow> ref \<Rightarrow> runtime_state \<Rightarrow> runtime_state" where
  "returned sourceModule moduleId m s =
     s\<lparr>history := history s @
        [RequireReturned (mid (modules s sourceModule)) moduleId
           (exports (modules s m)) (loaded (modules s m))]\<rparr>"

definition assigned :: "module_id \<Rightarrow> ref \<Rightarrow> runtime_state \<Rightarrow> runtime_state" where
  "assigned moduleId m s =
     s\<lparr>modules := (modules s)(m := (modules s m)\<lparr>exports := nextRef s\<rparr>),
       objects := (objects s)(nextRef s := Map.empty),
       nextRef := Suc (nextRef s),
       history := history s @ [ExportsAssigned moduleId (nextRef s)]\<rparr>"

definition exported :: "ref \<Rightarrow> string \<Rightarrow> js_value \<Rightarrow> runtime_state \<Rightarrow> runtime_state" where
  "exported e k v s = s\<lparr>objects := (objects s)(e := (objects s e)(k \<mapsto> v))\<rparr>"

subsection \<open>Relations between an earlier and a later state\<close>

text \<open>
  \<open>cacheGrows s s'\<close>: every entry of the module cache of \<open>s\<close> is still there in \<open>s'\<close>,
  with the same record, and between the two states the factory of an id was called
  once when the id entered the cache and not at all otherwise.
\<close>

definition cacheGrows :: "runtime_state \<Rightarrow> runtime_state \<Rightarrow> bool" where
  "cacheGrows s s' \<longleftrightarrow>
     (\<forall>i m. moduleCache s i = Some m \<longrightarrow> moduleCache s' i = Some m) \<and>
     (\<forall>i. count_list (history s') (FactoryCalled i) =
          count_list (history s) (FactoryCalled i) +
          (if moduleCache s i = None \<and> moduleCache s' i \<noteq> None then 1 else 0))"

text \<open>
  \<open>storeKept s s'\<close>: no reference is given back and every module record that existed in
  \<open>s\<close> is unchanged in \<open>s'\<close>. \<open>selfKept m s s'\<close>: the same but for the record \<open>m\<close>, of
  which only \<^verbatim>\<open>exports\<close> may differ (what the factory of \<open>m\<close> itself may do).
\<close>

definition storeKept :: "runtime_state \<Rightarrow> runtime_state \<Rightarrow> bool" where
  "storeKept s s' \<longleftrightarrow> nextRef s \<le> nextRef s' \<and> (\<forall>r<nextRef s. modules s' r = modules s r)"

definition sameButExports :: "module_record \<Rightarrow> module_record \<Rightarrow> bool" where
  "sameButExports md md' \<longleftrightarrow>
     error md' = error md \<and> loaded md' = loaded md \<and> mid md' = mid md \<and>
     namespaceObject md' = namespaceObject md"

definition selfKept :: "ref \<Rightarrow> runtime_state \<Rightarrow> runtime_state \<Rightarrow> bool" where
  "selfKept m s s' \<longleftrightarrow>
     nextRef s \<le> nextRef s' \<and>
     (\<forall>r<nextRef s. r \<noteq> m \<longrightarrow> modules s' r = modules s r) \<and>
     sameButExports (modules s m) (modules s' m)"

text \<open>
  \<open>capturesCurrent a e evs\<close>: every require of \<open>a\<close> in the events \<open>evs\<close> received its
  exports object from a record not loaded, and received \<open>e\<close> when the factory of \<open>a\<close> did
  not assign \<^verbatim>\<open>module.exports\<close> afterwards. \<open>inProgress a m n asg t\<close>: in the state \<open>t\<close>
  the module \<open>a\<close> is being instantiated: the cache holds its record \<open>m\<close>, not loaded, the
  requires of \<open>a\<close> since the entry \<open>n\<close> of the history are current for the exports object
  that the record has in \<open>t\<close>, and the factory of \<open>a\<close> assigned \<^verbatim>\<open>module.exports\<close> since
  then only if \<open>asg\<close> holds.
\<close>

definition capturesCurrent :: "module_id \<Rightarrow> ref \<Rightarrow> event list \<Rightarrow> bool" where
  "capturesCurrent a e evs \<longleftrightarrow>
     (\<forall>xs p r l ys. evs = xs @ RequireReturned p a r l # ys \<longrightarrow>
        \<not> l \<and> ((\<forall>r'. ExportsAssigned a r' \<notin> set ys) \<longrightarrow> r = e))"

definition inProgress :: "module_id \<Rightarrow> ref \<Rightarrow> nat \<Rightarrow> bool \<Rightarrow> runtime_state \<Rightarrow> bool" where
  "inProgress a m n asg t \<longleftrightarrow>
     moduleCache t a = Some m \<and> m < nextRef t \<and> \<not> loaded (modules t m) \<and>
     n \<le> length (history t) \<and>
     capturesCurrent a (exports (modules t m)) (drop n (history t)) \<and>
     (\<forall>r'. ExportsAssigned a r' \<in> set (drop n (history t)) \<longrightarrow> asg)"

text \<open>
  \<open>idsWithin U E s\<close>: the finite set \<open>U\<close> holds every id that has a factory in \<open>s\<close> or is
  listed by a chunk of \<open>E\<close>. \<open>fuelEnough U E n s\<close>: moreover at most \<open>n\<close> ids of \<open>U\<close> are
  not in the module cache, so that factory calls nest no deeper than \<open>n\<close>.
\<close>

definition idsOf :: "chunk_table \<Rightarrow> module_id set" where
  "idsOf chunkModules = fst ` set chunkModules \<union> aliasIds chunkModules"

definition idsWithin :: "module_id set \<Rightarrow> env \<Rightarrow> runtime_state \<Rightarrow> bool" where
  "idsWithin U E s \<longleftrightarrow>
     finite U \<and> dom (moduleFactories s) \<subseteq> U \<and>
     (\<forall>p chunkModules. requireResolved E p = Inr chunkModules \<longrightarrow> idsOf chunkModules \<subseteq> U)"

definition fuelEnough :: "module_id set \<Rightarrow> env \<Rightarrow> nat \<Rightarrow> runtime_state \<Rightarrow> bool" where
  "fuelEnough U E n s \<longleftrightarrow> idsWithin U E s \<and> card (U - dom (moduleCache s)) \<le> n"

subsection \<open>Example runs\<close>

definition instantiated :: "module_id \<Rightarrow> chunk_path \<Rightarrow> (js_value + ref) \<times> runtime_state" where
  "instantiated i p = the (getOrInstantiateRuntimeModule 16 exampleEnv i p (loadedExample p))"


definition laterCalls :: "(nat \<times> env \<times> call) list" where
  "laterCalls =
     [(0, exampleEnv, LoadChunkAsync (Parent ''A'') (ChunkPathString ''missing.js'')),
      (0, exampleEnv, GetOrInstantiateModuleFromParent ''B'' 0),
      (0, exampleEnv, GetOrInstantiateModuleFromParent ''T'' 0)]"

definition laterState :: "module_id \<Rightarrow> chunk_path \<Rightarrow> runtime_state" where
  "laterState i p =
     snd (loadChunkAsync exampleEnv (Parent ''A'') (ChunkPathString ''missing.js'')
            (snd (instantiated i p)))"

section \<open>Properties\<close>

subsection \<open>Evaluation of the examples\<close>

lemma isJs_examples:
  "isJs ''cycle.js''" "isJs ''shared.js''" "isJs ''old.js''" "isJs ''throws.js''"
  "isJs ''reassign.js''" "isJs ''missing.js''" "isJs ''chunk.js?v=1#top''"
  "isJs ''early.js''" "isJs ''null.js''" "isJs ''stolen.js''" "isJs ''later.js''"
  "\<not> isJs ''styles.css''" "\<not> isJs ''chunk.mjs''" "\<not> isJs ''chunk.cjs''"
  "\<not> isJs ''data.json''"
  by (simp_all add: isJs_def regexJsUrl_def lineTerminators_def)

subsection \<open>The regular expression\<close>

lemma starRests_iff:
  "t \<in> set (starRests c s) \<longleftrightarrow> (\<exists>u. s = u @ t \<and> (\<forall>x \<in> set u. inClass c x))"
proof (induction s)
  case Nil
  then show ?case by auto
next
  case (Cons a s)
  show ?case
  proof (cases "inClass c a")
    case True
    have "(\<exists>u. a # s = u @ t \<and> (\<forall>x \<in> set u. inClass c x)) \<longleftrightarrow>
          t = a # s \<or> (\<exists>u. s = u @ t \<and> (\<forall>x \<in> set u. inClass c x))"
      using True by (auto simp: Cons_eq_append_conv)
    then show ?thesis using True Cons.IH by auto
  next
    case False
    have "(\<exists>u. a # s = u @ t \<and> (\<forall>x \<in> set u. inClass c x)) \<longleftrightarrow> t = a # s"
      using False by (auto simp: Cons_eq_append_conv)
    then show ?thesis using False by auto
  qed
qed

lemma rests_Atom_iff: "t \<in> set (rests (Atom c) s) \<longleftrightarrow> (\<exists>x. s = x # t \<and> inClass c x)"
  by (cases s) auto

lemma rests_Seq_iff: "t \<in> set (rests (Seq r1 r2) s) \<longleftrightarrow> (\<exists>u. u \<in> set (rests r1 s) \<and> t \<in> set (rests r2 u))"
  by auto

lemma rests_Opt_iff: "t \<in> set (rests (Opt r) s) \<longleftrightarrow> t \<in> set (rests r s) \<or> t = s"
  by auto

lemma rests_End_iff: "t \<in> set (rests EndOfInput s) \<longleftrightarrow> s = [] \<and> t = []"
  by auto

lemma rests_query_iff:
  "t \<in> set (rests (Opt (Seq (Atom (Exactly CHR ''?'')) (StarAtom (AnyExcept ''#'')))) s) \<longleftrightarrow>
     (\<exists>q. s = q @ t \<and> (q = [] \<or> isQuery q))"
proof -
  have "t \<in> set (rests (Seq (Atom (Exactly CHR ''?'')) (StarAtom (AnyExcept ''#''))) s) \<longleftrightarrow>
        (\<exists>q. s = q @ t \<and> isQuery q)" (is "?L \<longleftrightarrow> ?R")
  proof
    assume ?L
    then obtain u where "s = CHR ''?'' # u" and "t \<in> set (starRests (AnyExcept ''#'') u)"
      by (auto simp: rests_Atom_iff simp del: rests.simps(1) split: list.splits if_splits)
    then obtain v where "u = v @ t" and "CHR ''#'' \<notin> set v"
      by (auto simp: starRests_iff)
    then have "s = (CHR ''?'' # v) @ t \<and> isQuery (CHR ''?'' # v)"
      using \<open>s = CHR ''?'' # u\<close> by (simp add: isQuery_def)
    then show ?R by blast
  next
    assume ?R
    then obtain q where q: "s = q @ t" "isQuery q" by blast
    then obtain v where v: "q = CHR ''?'' # v" "CHR ''#'' \<notin> set v"
      by (auto simp: isQuery_def split: list.splits)
    have "t \<in> set (starRests (AnyExcept ''#'') (v @ t))"
      using v(2) by (auto simp: starRests_iff)
    then show ?L using q(1) v(1) by simp
  qed
  then show ?thesis by (auto simp only: rests_Opt_iff)
qed

lemma rests_fragment_iff:
  "t \<in> set (rests (Opt (Seq (Atom (Exactly CHR ''#'')) (StarAtom (AnyExcept lineTerminators)))) s) \<longleftrightarrow>
     (\<exists>f. s = f @ t \<and> (f = [] \<or> isFragment f))"
proof -
  have "t \<in> set (rests (Seq (Atom (Exactly CHR ''#'')) (StarAtom (AnyExcept lineTerminators))) s) \<longleftrightarrow>
        (\<exists>f. s = f @ t \<and> isFragment f)" (is "?L \<longleftrightarrow> ?R")
  proof
    assume ?L
    then obtain u where "s = CHR ''#'' # u" and "t \<in> set (starRests (AnyExcept lineTerminators) u)"
      by (auto split: list.splits if_splits)
    then obtain v where "u = v @ t" and "set v \<inter> set lineTerminators = {}"
      by (auto simp: starRests_iff)
    then have "s = (CHR ''#'' # v) @ t \<and> isFragment (CHR ''#'' # v)"
      using \<open>s = CHR ''#'' # u\<close> by (simp add: isFragment_def)
    then show ?R by blast
  next
    assume ?R
    then obtain f where f: "s = f @ t" "isFragment f" by blast
    then obtain v where v: "f = CHR ''#'' # v" "set v \<inter> set lineTerminators = {}"
      by (auto simp: isFragment_def split: list.splits)
    have "t \<in> set (starRests (AnyExcept lineTerminators) (v @ t))"
      using v(2) by (auto simp: starRests_iff)
    then show ?L using f(1) v(1) by simp
  qed
  then show ?thesis by (auto simp only: rests_Opt_iff)
qed

lemma rests_regexJsUrl_iff:
  "rests regexJsUrl s \<noteq> [] \<longleftrightarrow>
     (\<exists>q f. s = ''.js'' @ q @ f \<and> (q = [] \<or> isQuery q) \<and> (f = [] \<or> isFragment f))"
proof -
  define qr where "qr = Opt (Seq (Atom (Exactly CHR ''?'')) (StarAtom (AnyExcept ''#'')))"
  define fr where "fr = Opt (Seq (Atom (Exactly CHR ''#'')) (StarAtom (AnyExcept lineTerminators)))"
  have re: "regexJsUrl =
      Seq (Atom (Exactly CHR ''.'')) (Seq (Atom (Exactly CHR ''j'')) (Seq (Atom (Exactly CHR ''s''))
        (Seq qr (Seq fr EndOfInput))))"
    by (simp add: regexJsUrl_def qr_def fr_def)
  have q: "\<And>t u. t \<in> set (rests qr u) \<longleftrightarrow> (\<exists>q. u = q @ t \<and> (q = [] \<or> isQuery q))"
    unfolding qr_def by (rule rests_query_iff)
  have f: "\<And>t u. t \<in> set (rests fr u) \<longleftrightarrow> (\<exists>f. u = f @ t \<and> (f = [] \<or> isFragment f))"
    unfolding fr_def by (rule rests_fragment_iff)
  have "rests regexJsUrl s \<noteq> [] \<longleftrightarrow> (\<exists>t. t \<in> set (rests regexJsUrl s))"
    by (cases "rests regexJsUrl s") auto
  also have "\<dots> \<longleftrightarrow>
      (\<exists>u. s = ''.js'' @ u \<and>
         (\<exists>v. (\<exists>q. u = q @ v \<and> (q = [] \<or> isQuery q)) \<and> (v = [] \<or> isFragment v)))"
    unfolding re
    apply (simp only: rests_Seq_iff rests_Atom_iff rests_End_iff q f inClass.simps)
    apply simp
    apply blast
    done
  also have "\<dots> \<longleftrightarrow>
      (\<exists>q f. s = ''.js'' @ q @ f \<and> (q = [] \<or> isQuery q) \<and> (f = [] \<or> isFragment f))"
    by blast
  finally show ?thesis .
qed

lemma regexTest_iff: "regexTest r p \<longleftrightarrow> (\<exists>base s. p = base @ s \<and> rests r s \<noteq> [])"
proof (induction p)
  case Nil
  then show ?case by simp
next
  case (Cons a p)
  have "(\<exists>base s. a # p = base @ s \<and> rests r s \<noteq> []) \<longleftrightarrow>
        rests r (a # p) \<noteq> [] \<or> (\<exists>base s. p = base @ s \<and> rests r s \<noteq> [])"
    by (auto simp: Cons_eq_append_conv)
  then show ?case using Cons.IH by simp
qed

lemma isJs_iff_endsWith: "isJs p \<longleftrightarrow> endsWithJsQueryFragment p"
  unfolding isJs_def endsWithJsQueryFragment_def regexTest_iff rests_regexJsUrl_iff by auto

lemma isQuery_mark: "isQuery q \<Longrightarrow> CHR ''?'' \<in> set q"
  by (auto simp: isQuery_def split: list.splits)

lemma isFragment_mark: "isFragment f \<Longrightarrow> CHR ''#'' \<in> set f"
  by (auto simp: isFragment_def split: list.splits)

lemma isJs_plain_path:
  assumes "CHR ''?'' \<notin> set p" "CHR ''#'' \<notin> set p"
  shows "isJs p \<longleftrightarrow> (\<exists>base. p = base @ ''.js'')"
proof
  assume "isJs p"
  then obtain base q f where p: "p = base @ ''.js'' @ q @ f"
    and q: "q = [] \<or> isQuery q" and f: "f = [] \<or> isFragment f"
    unfolding isJs_iff_endsWith endsWithJsQueryFragment_def by blast
  have "q = []" using q assms(1) p isQuery_mark by fastforce
  moreover have "f = []" using f assms(2) p isFragment_mark by fastforce
  ultimately show "\<exists>base. p = base @ ''.js''" using p by simp
next
  assume "\<exists>base. p = base @ ''.js''"
  then obtain base where "p = base @ ''.js'' @ [] @ []" by auto
  then show "isJs p" unfolding isJs_iff_endsWith endsWithJsQueryFragment_def by blast
qed


subsection \<open>Registering the entries of a chunk\<close>

lemma registerOtherIds_apply:
  "registerOtherIds f ids mf i = (if i \<in> set ids then Some f else mf i)"
  by (induction ids arbitrary: mf) auto

lemma registerEntries_append:
  "registerEntries (xs @ ys) mf = registerEntries ys (registerEntries xs mf)"
  by (induction xs arbitrary: mf) auto

lemma registerOtherIds_dom: "dom (registerOtherIds f ids mf) = dom mf \<union> set ids"
  by (induction ids arbitrary: mf) auto

lemma registerEntry_dom: "dom (registerEntry entry mf) \<subseteq> dom mf \<union> idsOf [entry]"
  by (cases entry; cases "snd entry") (auto simp: registerOtherIds_dom idsOf_def aliasIds_def)

lemma registerEntries_dom: "dom (registerEntries chunkModules mf) \<subseteq> dom mf \<union> idsOf chunkModules"
proof (induction chunkModules arbitrary: mf)
  case Nil
  then show ?case by simp
next
  case (Cons entry entries)
  have "idsOf (entry # entries) = idsOf [entry] \<union> idsOf entries"
    by (auto simp: idsOf_def aliasIds_def)
  then show ?case using Cons.IH [of "registerEntry entry mf"] registerEntry_dom [of entry mf]
    by auto
qed

lemma registerEntry_apply:
  "registerEntry (p, cf) mf j =
     (if mf p = None \<and> (j = p \<or> j \<in> set (otherIdsOf cf)) then Some (factoryOf cf) else mf j)"
  by (cases cf) (auto simp: registerOtherIds_apply)

lemma registerEntries_unassigned:
  "mf i = Some f \<Longrightarrow> \<not> assignedAsAlias i chunkModules mf \<Longrightarrow>
   registerEntries chunkModules mf i = Some f"
proof (induction chunkModules arbitrary: mf)
  case Nil
  then show ?case by simp
next
  case (Cons entry entries)
  obtain p cf where entry: "entry = (p, cf)" by (cases entry)
  have "registerEntry entry mf i = Some f"
    using Cons.prems unfolding entry registerEntry_apply by auto
  then show ?case using Cons.IH [of "registerEntry entry mf"] Cons.prems(2) by simp
qed

lemma registerEntries_assigned:
  "assignedAsAlias i chunkModules mf \<Longrightarrow>
   \<exists>p g ids. (p, Shared g ids) \<in> set chunkModules \<and> i \<in> set ids \<and>
     registerEntries chunkModules mf i = Some g"
proof (induction chunkModules arbitrary: mf)
  case Nil
  then show ?case by simp
next
  case (Cons entry entries)
  show ?case
  proof (cases "assignedAsAlias i entries (registerEntry entry mf)")
    case True
    then obtain p g ids where "(p, Shared g ids) \<in> set entries" "i \<in> set ids"
        "registerEntries entries (registerEntry entry mf) i = Some g"
      using Cons.IH by blast
    then show ?thesis by auto
  next
    case False
    then have here: "mf (fst entry) = None" "i \<in> set (otherIdsOf (snd entry))"
      using Cons.prems by simp_all
    then obtain p g ids where entry: "entry = (p, Shared g ids)" "i \<in> set ids"
      by (cases entry; cases "snd entry") auto
    have "registerEntry entry mf i = Some g"
      using here entry by (simp add: registerOtherIds_apply)
    then have "registerEntries (entry # entries) mf i = Some g"
      using False by (simp add: registerEntries_unassigned)
    then show ?thesis using entry by auto
  qed
qed

lemma assignedAsAlias_aliasIds:
  "assignedAsAlias i chunkModules mf \<Longrightarrow> i \<in> aliasIds chunkModules"
  by (induction chunkModules arbitrary: mf) (auto simp: aliasIds_def)

text \<open>
  Claim C6, as amended. Registering the table of a chunk leaves the factory of an id in
  place when the id already has one, in \<^verbatim>\<open>loadChunkPath\<close> and in \<^verbatim>\<open>loadChunkUncached\<close>,
  unless the loop over the table reaches an entry that lists the id as an alias id at a
  moment when the primary id of that entry has no factory; then the id ends with the
  factory of such an entry. An entry assigns its factory to its primary id and to its
  alias ids when its primary id has no factory at that moment, and changes nothing
  otherwise: so an entry under the id as primary id is discarded, and the first factory
  is kept for an id that the table does not list as an alias id.
\<close>

theorem first_factory_kept_unless_alias:
  assumes "moduleFactories s i = Some f"
    and "requireResolved E chunkPath = Inr chunkModules"
  shows "(\<not> assignedAsAlias i chunkModules (moduleFactories s) \<longrightarrow>
            moduleFactories (snd (loadChunkPath E chunkPath source s)) i = Some f \<and>
            moduleFactories (snd (loadChunkUncached E chunkPath s)) i = Some f) \<and>
         (assignedAsAlias i chunkModules (moduleFactories s) \<longrightarrow>
            (\<exists>p g ids. (p, Shared g ids) \<in> set chunkModules \<and> i \<in> set ids \<and>
               moduleFactories (snd (loadChunkUncached E chunkPath s)) i = Some g \<and>
               (isJs chunkPath \<and> chunkPath \<notin> loadedChunks s \<longrightarrow>
                  moduleFactories (snd (loadChunkPath E chunkPath source s)) i = Some g))) \<and>
         (i \<notin> aliasIds chunkModules \<longrightarrow> \<not> assignedAsAlias i chunkModules (moduleFactories s)) \<and>
         (\<forall>mf p cf j. registerEntry (p, cf) mf j =
            (if mf p = None \<and> (j = p \<or> j \<in> set (otherIdsOf cf)) then Some (factoryOf cf)
             else mf j))"
proof -
  have kept: "\<not> assignedAsAlias i chunkModules (moduleFactories s) \<longrightarrow>
      moduleFactories (snd (loadChunkPath E chunkPath source s)) i = Some f \<and>
      moduleFactories (snd (loadChunkUncached E chunkPath s)) i = Some f"
    using assms
    by (simp add: loadChunkPath_def loadChunkUncached_def registerEntries_unassigned Let_def)
  have lost: "\<exists>p g ids. (p, Shared g ids) \<in> set chunkModules \<and> i \<in> set ids \<and>
      moduleFactories (snd (loadChunkUncached E chunkPath s)) i = Some g \<and>
      (isJs chunkPath \<and> chunkPath \<notin> loadedChunks s \<longrightarrow>
         moduleFactories (snd (loadChunkPath E chunkPath source s)) i = Some g)"
    if asg: "assignedAsAlias i chunkModules (moduleFactories s)"
  proof -
    obtain p g ids where "(p, Shared g ids) \<in> set chunkModules" "i \<in> set ids"
        "registerEntries chunkModules (moduleFactories s) i = Some g"
      using registerEntries_assigned [OF asg] by blast
    then show ?thesis
      using assms(2) by (auto simp: loadChunkPath_def loadChunkUncached_def Let_def)
  qed
  have unlisted: "i \<notin> aliasIds chunkModules \<longrightarrow>
      \<not> assignedAsAlias i chunkModules (moduleFactories s)"
    using assignedAsAlias_aliasIds by blast
  have step: "\<forall>mf p cf j. registerEntry (p, cf) mf j =
      (if mf p = None \<and> (j = p \<or> j \<in> set (otherIdsOf cf)) then Some (factoryOf cf) else mf j)"
    by (intro allI) (rule registerEntry_apply)
  from lost have lost': "assignedAsAlias i chunkModules (moduleFactories s) \<longrightarrow>
      (\<exists>p g ids. (p, Shared g ids) \<in> set chunkModules \<and> i \<in> set ids \<and>
         moduleFactories (snd (loadChunkUncached E chunkPath s)) i = Some g \<and>
         (isJs chunkPath \<and> chunkPath \<notin> loadedChunks s \<longrightarrow>
            moduleFactories (snd (loadChunkPath E chunkPath source s)) i = Some g))"
    by (rule impI)
  show ?thesis by (rule conjI [OF kept conjI [OF lost' conjI [OF unlisted step]]])
qed

theorem first_factory_kept_unless_alias_witness:
  "moduleFactories (loadedExample ''shared.js'') ''X'' = Some factoryS \<and>
   moduleFactories (loadedExample ''shared.js'') ''Y'' = Some factoryS \<and>
   requireResolved exampleEnv ''shared2.js'' = Inr [(''X'', Shared factoryOld [''Y'', ''Z''])] \<and>
   \<not> assignedAsAlias ''X'' [(''X'', Shared factoryOld [''Y'', ''Z''])]
       (moduleFactories (loadedExample ''shared.js'')) \<and>
   \<not> assignedAsAlias ''Y'' [(''X'', Shared factoryOld [''Y'', ''Z''])]
       (moduleFactories (loadedExample ''shared.js'')) \<and>
   moduleFactories (snd (loadChunkPath exampleEnv ''shared2.js'' None (loadedExample ''shared.js''))) ''X'' =
     Some factoryS \<and>
   moduleFactories (snd (loadChunkPath exampleEnv ''shared2.js'' None (loadedExample ''shared.js''))) ''Y'' =
     Some factoryS \<and>
   moduleFactories (snd (loadChunkUncached exampleEnv ''shared2.js'' (loadedExample ''shared.js''))) ''Y'' =
     Some factoryS \<and>
   requireResolved exampleEnv ''later.js'' =
     Inr [(''X'', Shared factoryS [''Y'', ''Z'']), (''D'', Shared factoryOld [''Y''])] \<and>
   assignedAsAlias ''Y'' [(''X'', Shared factoryS [''Y'', ''Z'']), (''D'', Shared factoryOld [''Y''])]
     (moduleFactories (loadedExample ''shared.js'')) \<and>
   moduleFactories (snd (loadChunkUncached exampleEnv ''later.js'' (loadedExample ''shared.js''))) ''Y'' =
     Some factoryOld \<and>
   factoryOld \<noteq> factoryS"
proof -
  let ?s = "loadedExample ''shared.js''"
  have h1: "moduleFactories ?s ''X'' = Some factoryS" "moduleFactories ?s ''Y'' = Some factoryS"
    "moduleFactories ?s ''D'' = None"
    by (simp_all add: loadedExample_def loadChunkPath_def isJs_examples initialState_def
        exampleEnv_def Let_def)
  have h2: "requireResolved exampleEnv ''shared2.js'' = Inr [(''X'', Shared factoryOld [''Y'', ''Z''])]"
    by (simp add: exampleEnv_def)
  have h3: "\<not> assignedAsAlias ''X'' [(''X'', Shared factoryOld [''Y'', ''Z''])] (moduleFactories ?s)"
    "\<not> assignedAsAlias ''Y'' [(''X'', Shared factoryOld [''Y'', ''Z''])] (moduleFactories ?s)"
    using h1 by simp_all
  have h4: "factoryOld \<noteq> factoryS" by (simp add: factoryOld_def factoryS_def)
  have h5: "requireResolved exampleEnv ''later.js'' =
      Inr [(''X'', Shared factoryS [''Y'', ''Z'']), (''D'', Shared factoryOld [''Y''])]"
    by (simp add: exampleEnv_def)
  have h6: "assignedAsAlias ''Y''
      [(''X'', Shared factoryS [''Y'', ''Z'']), (''D'', Shared factoryOld [''Y''])] (moduleFactories ?s)"
    using h1 by simp
  have h7: "moduleFactories (snd (loadChunkUncached exampleEnv ''later.js'' ?s)) ''Y'' = Some factoryOld"
    using h1 h5 by (simp add: loadChunkUncached_def)
  note keptX = first_factory_kept_unless_alias [OF h1(1) h2, of None, THEN conjunct1, rule_format, OF h3(1)]
  note keptY = first_factory_kept_unless_alias [OF h1(2) h2, of None, THEN conjunct1, rule_format, OF h3(2)]
  show ?thesis using keptX keptY h1(1,2) h2 h3 h4 h5 h6 h7 by simp
qed

text \<open>
  Claim C6 as it is written fails for an alias id: the factory of \<open>Y\<close>, registered by
  one chunk, is replaced when a second chunk lists \<open>Y\<close> as an alias id of the entry of
  \<open>X\<close>, in both loaders.
\<close>

theorem alias_id_overwritten:
  "moduleFactories (loadedExample ''old.js'') ''Y'' = Some factoryOld \<and>
   moduleFactories (snd (loadChunkPath exampleEnv ''shared.js'' None (loadedExample ''old.js''))) ''Y'' =
     Some factoryS \<and>
   moduleFactories (snd (loadChunkUncached exampleEnv ''shared.js'' (loadedExample ''old.js''))) ''Y'' =
     Some factoryS \<and>
   factoryS \<noteq> factoryOld"
  by (simp add: loadedExample_def loadChunkPath_def loadChunkUncached_def isJs_examples
      initialState_def exampleEnv_def Let_def factoryS_def factoryOld_def)

text \<open>
  Claim C7, as amended. A chunk is loaded whose table holds the compressed entry
  \<^verbatim>\<open>[f, [idB, idC]]\<close> under the primary id \<open>idA\<close>. When \<open>idA\<close> has no factory at the moment
  the loop reaches the entry (so it is when \<open>idA\<close> had none before the load and no earlier
  entry of the table lists it), the step of that entry registers the one factory \<open>f\<close>
  for \<open>idA\<close>, \<open>idB\<close> and \<open>idC\<close> together and changes no other id; when \<open>idA\<close> has a factory
  at that moment, the step changes nothing. The load goes on from there, and each of
  the three ids still resolves to \<open>f\<close> when the load is over unless a later entry of the
  table, reached while its primary id has no factory, lists the id as an alias id.
\<close>

theorem shared_entry_registers_all:
  assumes "isJs chunkPath" and "chunkPath \<notin> loadedChunks s"
    and "requireResolved E chunkPath = Inr (before @ (idA, Shared f [idB, idC]) # after)"
    and "reached = registerEntries before (moduleFactories s)"
    and "step = registerEntry (idA, Shared f [idB, idC]) reached"
  shows "(reached idA = None \<longrightarrow>
            step idA = Some f \<and> step idB = Some f \<and> step idC = Some f \<and>
            (\<forall>j. j \<notin> {idA, idB, idC} \<longrightarrow> step j = reached j)) \<and>
         (reached idA \<noteq> None \<longrightarrow> step = reached) \<and>
         (moduleFactories s idA = None \<and> idA \<notin> idsOf before \<longrightarrow> reached idA = None) \<and>
         moduleFactories (snd (loadChunkPath E chunkPath source s)) = registerEntries after step \<and>
         (\<forall>j \<in> {idA, idB, idC}. reached idA = None \<and> \<not> assignedAsAlias j after step \<longrightarrow>
            moduleFactories (snd (loadChunkPath E chunkPath source s)) j = Some f) \<and>
         (\<forall>j \<in> {idA, idB, idC}. j \<notin> aliasIds after \<longrightarrow> \<not> assignedAsAlias j after step)"
proof -
  have st: "reached idA = None \<longrightarrow>
      step idA = Some f \<and> step idB = Some f \<and> step idC = Some f \<and>
      (\<forall>j. j \<notin> {idA, idB, idC} \<longrightarrow> step j = reached j)"
    using assms(5) by (simp add: registerOtherIds_apply)
  have skip: "reached idA \<noteq> None \<longrightarrow> step = reached"
    using assms(5) by auto
  have fresh: "moduleFactories s idA = None \<and> idA \<notin> idsOf before \<longrightarrow> reached idA = None"
    using registerEntries_dom [of before "moduleFactories s"] assms(4) by (auto simp: dom_def)
  have fin: "moduleFactories (snd (loadChunkPath E chunkPath source s)) = registerEntries after step"
    using assms by (simp add: loadChunkPath_def registerEntries_append Let_def)
  have "registerEntries after step j = Some f"
    if "j \<in> {idA, idB, idC}" "reached idA = None" "\<not> assignedAsAlias j after step" for j
  proof -
    have "step j = Some f" using that(1,2) st by auto
    then show ?thesis using that(3) by (rule registerEntries_unassigned)
  qed
  then have final: "\<forall>j \<in> {idA, idB, idC}. reached idA = None \<and> \<not> assignedAsAlias j after step \<longrightarrow>
      moduleFactories (snd (loadChunkPath E chunkPath source s)) j = Some f"
    unfolding fin by blast
  have unlisted: "\<forall>j \<in> {idA, idB, idC}. j \<notin> aliasIds after \<longrightarrow> \<not> assignedAsAlias j after step"
    using assignedAsAlias_aliasIds by blast
  show ?thesis by (rule conjI [OF st conjI [OF skip conjI [OF fresh conjI [OF fin conjI [OF final unlisted]]]]])
qed

theorem shared_entry_registers_all_witness:
  "isJs ''shared.js'' \<and> ''shared.js'' \<notin> loadedChunks (loadedExample ''cycle.js'') \<and>
   requireResolved exampleEnv ''shared.js'' = Inr ([] @ (''X'', Shared factoryS [''Y'', ''Z'']) # []) \<and>
   moduleFactories (loadedExample ''cycle.js'') ''X'' = None \<and>
   ''X'' \<notin> idsOf [] \<and>
   moduleFactories (snd (loadChunkPath exampleEnv ''shared.js'' None (loadedExample ''cycle.js''))) ''X'' =
     Some factoryS \<and>
   moduleFactories (snd (loadChunkPath exampleEnv ''shared.js'' None (loadedExample ''cycle.js''))) ''Y'' =
     Some factoryS \<and>
   moduleFactories (snd (loadChunkPath exampleEnv ''shared.js'' None (loadedExample ''cycle.js''))) ''Z'' =
     Some factoryS"
proof -
  let ?s = "loadedExample ''cycle.js''"
  let ?step = "registerEntry (''X'', Shared factoryS [''Y'', ''Z''])
    (registerEntries [] (moduleFactories ?s))"
  have h1: "isJs ''shared.js''" by (rule isJs_examples)
  have h2: "''shared.js'' \<notin> loadedChunks ?s"
    by (simp add: loadedExample_def loadChunkPath_def isJs_examples initialState_def
        exampleEnv_def Let_def)
  have h3: "requireResolved exampleEnv ''shared.js'' =
      Inr ([] @ (''X'', Shared factoryS [''Y'', ''Z'']) # [])"
    by (simp add: exampleEnv_def)
  have h5: "moduleFactories ?s ''X'' = None"
    by (simp_all add: loadedExample_def loadChunkPath_def isJs_examples initialState_def
        exampleEnv_def Let_def)
  have h6: "''X'' \<notin> idsOf []" by (simp add: idsOf_def aliasIds_def)
  have h7: "\<forall>j \<in> {''X'', ''Y'', ''Z''}. \<not> assignedAsAlias j [] ?step" by simp
  note all = shared_entry_registers_all [OF h1 h2 h3 refl refl, of None]
  note fresh = all [THEN conjunct2, THEN conjunct2, THEN conjunct1]
  note final = all [THEN conjunct2, THEN conjunct2, THEN conjunct2, THEN conjunct2, THEN conjunct1]
  have r: "registerEntries [] (moduleFactories ?s) ''X'' = None" using fresh h5 h6 by blast
  have "\<forall>j \<in> {''X'', ''Y'', ''Z''}.
      moduleFactories (snd (loadChunkPath exampleEnv ''shared.js'' None ?s)) j = Some factoryS"
    using final r h7 by blast
  with h1 h2 h3 h5 h6 show ?thesis by simp
qed

text \<open>
  Claim C7 as it is written fails in two ways, with none of the three ids registered
  before the load. In the chunk \<open>stolen.js\<close> an earlier entry lists \<open>X\<close> as an alias id:
  \<open>X\<close> has the factory of that entry when the loop reaches the entry of \<open>X\<close>, which is
  skipped, and \<open>Y\<close> and \<open>Z\<close> stay without a factory. In the chunk \<open>later.js\<close> the entry of
  \<open>X\<close> registers the three ids, and a later entry lists \<open>Y\<close> as an alias id: after the
  load \<open>X\<close> and \<open>Y\<close> resolve to different factories.
\<close>

theorem shared_entry_not_registered:
  "isJs ''stolen.js'' \<and> ''stolen.js'' \<notin> loadedChunks initialState \<and>
   requireResolved exampleEnv ''stolen.js'' =
     Inr [(''0'', Shared factoryOld [''X'']), (''X'', Shared factoryS [''Y'', ''Z''])] \<and>
   moduleFactories initialState ''X'' = None \<and> moduleFactories initialState ''Y'' = None \<and>
   moduleFactories initialState ''Z'' = None \<and>
   moduleFactories (snd (loadChunkPath exampleEnv ''stolen.js'' None initialState)) ''X'' =
     Some factoryOld \<and>
   moduleFactories (snd (loadChunkPath exampleEnv ''stolen.js'' None initialState)) ''Y'' = None \<and>
   moduleFactories (snd (loadChunkPath exampleEnv ''stolen.js'' None initialState)) ''Z'' = None \<and>
   isJs ''later.js'' \<and> ''later.js'' \<notin> loadedChunks initialState \<and>
   requireResolved exampleEnv ''later.js'' =
     Inr [(''X'', Shared factoryS [''Y'', ''Z'']), (''D'', Shared factoryOld [''Y''])] \<and>
   moduleFactories (snd (loadChunkPath exampleEnv ''later.js'' None initialState)) ''X'' =
     Some factoryS \<and>
   moduleFactories (snd (loadChunkPath exampleEnv ''later.js'' None initialState)) ''Y'' =
     Some factoryOld \<and>
   moduleFactories (snd (loadChunkPath exampleEnv ''later.js'' None initialState)) ''Z'' =
     Some factoryS \<and>
   factoryOld \<noteq> factoryS"
  by (simp add: loadChunkPath_def isJs_examples initialState_def exampleEnv_def Let_def
      factoryS_def factoryOld_def)

subsection \<open>The chunk loader\<close>

text \<open>
  Claim C8. When \<^verbatim>\<open>loadChunkPath\<close> has succeeded for an executable chunk path, the
  path is in the loaded-chunk set and a second call for it returns with the whole state
  as it was. Over both calls the chunk is required once: the first call requires it
  (once) when the path was not in the set before, the second never does.
\<close>

theorem loadChunkPath_twice:
  assumes "isJs chunkPath"
    and "loadChunkPath E chunkPath source s = (Inr (), s1)"
  shows "chunkPath \<in> loadedChunks s1 \<and>
         loadChunkPath E' chunkPath source' s1 = (Inr (), s1) \<and>
         history s1 = history s @ (if chunkPath \<in> loadedChunks s then [] else [ChunkRequired chunkPath])"
  using assms by (auto simp: loadChunkPath_def Let_def split: if_splits sum.splits)

theorem loadChunkPath_twice_witness:
  "isJs ''cycle.js'' \<and>
   loadChunkPath exampleEnv ''cycle.js'' None initialState = (Inr (), loadedExample ''cycle.js'') \<and>
   ''cycle.js'' \<in> loadedChunks (loadedExample ''cycle.js'') \<and>
   loadChunkPath exampleEnv ''cycle.js'' (Some (Parent ''A'')) (loadedExample ''cycle.js'') =
     (Inr (), loadedExample ''cycle.js'') \<and>
   history (loadedExample ''cycle.js'') = [ChunkRequired ''cycle.js'']"
proof -
  have h1: "isJs ''cycle.js''" by (rule isJs_examples)
  have h2: "loadChunkPath exampleEnv ''cycle.js'' None initialState =
      (Inr (), loadedExample ''cycle.js'')"
    by (simp add: loadedExample_def loadChunkPath_def isJs_examples initialState_def
        exampleEnv_def Let_def)
  have h3: "''cycle.js'' \<notin> loadedChunks initialState" "history initialState = []"
    by (simp_all add: initialState_def)
  from loadChunkPath_twice [OF h1 h2, of exampleEnv "Some (Parent ''A'')"] h1 h2 h3
  show ?thesis by simp
qed

text \<open>
  Claim C9. For a chunk path that is not an executable JS chunk, \<^verbatim>\<open>loadChunkPath\<close>
  (and \<^verbatim>\<open>loadChunk\<close>) return without raising and \<^verbatim>\<open>loadChunkAsync\<close> returns the
  fulfilled promise \<^verbatim>\<open>unsupportedLoadChunk\<close>; each leaves the whole state, so the factory
  registry, the module cache, the loaded-chunk set and the chunk cache, as it was.
\<close>

theorem non_js_chunk_is_noop:
  assumes "\<not> isJs (chunkPathOf chunkData)"
  shows "loadChunkPath E (chunkPathOf chunkData) source s = (Inr (), s) \<and>
         loadChunk E chunkData source s = (Inr (), s) \<and>
         loadChunkAsync E src chunkData s = (UnsupportedLoadChunk, s) \<and>
         rejection UnsupportedLoadChunk = None"
  using assms by (simp add: loadChunkPath_def loadChunk_def loadChunkAsync_def)

theorem non_js_chunk_is_noop_witness:
  "\<not> isJs (chunkPathOf (ChunkDataObject ''styles.css'')) \<and>
   loadChunkPath exampleEnv ''styles.css'' None (loadedExample ''cycle.js'') =
     (Inr (), loadedExample ''cycle.js'') \<and>
   loadChunkAsync exampleEnv (Parent ''A'') (ChunkDataObject ''styles.css'') (loadedExample ''cycle.js'') =
     (UnsupportedLoadChunk, loadedExample ''cycle.js'')"
proof -
  have h: "\<not> isJs (chunkPathOf (ChunkDataObject ''styles.css''))"
    by (simp add: isJs_examples)
  from non_js_chunk_is_noop [OF h, of exampleEnv None "loadedExample ''cycle.js''" "Parent ''A''"] h
  show ?thesis by simp
qed

text \<open>
  Claim C4. \<^verbatim>\<open>loadChunkAsync\<close> has returned a rejected promise for a chunk path. In
  every later state whose chunk cache still holds the entry of that path, a call for
  the path returns that same promise (the same object with the same error) and leaves
  the state as it was, so the chunk is not required again. After \<^verbatim>\<open>clearChunkCache\<close>
  the next call for the path requires the chunk again. The loaders themselves keep the
  entry, whatever path they are called for.
\<close>

theorem rejected_chunk_memoized:
  assumes "loadChunkAsync E source chunkData s = (entry, s1)"
    and "rejection entry = Some err"
    and "chunkPathOf chunkData' = chunkPathOf chunkData"
    and "chunkCache s2 (chunkPathOf chunkData) = chunkCache s1 (chunkPathOf chunkData)"
  shows "loadChunkAsync E' source' chunkData' s2 = (entry, s2) \<and>
         history (snd (loadChunkAsync E' source' chunkData' (clearChunkCache s2))) =
           history s2 @ [ChunkRequired (chunkPathOf chunkData)] \<and>
         chunkCache (snd (loadChunkAsync E' source' other s2)) (chunkPathOf chunkData) = Some entry \<and>
         chunkCache (snd (loadChunkPath E' otherPath source'' s2)) (chunkPathOf chunkData) = Some entry"
proof -
  have js: "isJs (chunkPathOf chunkData)"
    using assms(1,2) by (cases "isJs (chunkPathOf chunkData)") (auto simp: loadChunkAsync_def)
  have cached: "chunkCache s1 (chunkPathOf chunkData) = Some entry"
    using assms(1) js
    by (auto simp: loadChunkAsync_def loadChunkUncached_def Let_def split: option.splits sum.splits)
  have again: "loadChunkAsync E' source' chunkData' s2 = (entry, s2)"
    using js cached assms(3,4) by (simp add: loadChunkAsync_def)
  have cleared: "history (snd (loadChunkAsync E' source' chunkData' (clearChunkCache s2))) =
      history s2 @ [ChunkRequired (chunkPathOf chunkData)]"
    using js assms(3)
    by (simp add: loadChunkAsync_def loadChunkUncached_def clearChunkCache_def Let_def split: sum.splits)
  have kept: "chunkCache (snd (loadChunkAsync E' source' other s2)) (chunkPathOf chunkData) = Some entry"
    using cached assms(4)
    by (auto simp: loadChunkAsync_def loadChunkUncached_def Let_def split: option.splits sum.splits)
  have kept': "chunkCache (snd (loadChunkPath E' otherPath source'' s2)) (chunkPathOf chunkData) = Some entry"
    using cached assms(4) by (auto simp: loadChunkPath_def Let_def split: sum.splits)
  from again cleared kept kept' show ?thesis by simp
qed

theorem rejected_chunk_memoized_witness:
  "loadChunkAsync exampleEnv (Parent ''A'') (ChunkPathString ''missing.js'') initialState =
     (fst missingRejected, snd missingRejected) \<and>
   rejection (fst missingRejected) =
     Some (Error ''Failed to load chunk missing.js from parent module A''
            (Some (Error ''Cannot find module'' None))) \<and>
   loadChunkAsync exampleEnv (Runtime ''cycle.js'') (ChunkDataObject ''missing.js'') (snd missingRejected) =
     (fst missingRejected, snd missingRejected) \<and>
   history (snd missingRejected) = [ChunkRequired ''missing.js''] \<and>
   history (snd (loadChunkAsync exampleEnv (Runtime ''cycle.js'') (ChunkDataObject ''missing.js'')
                  (clearChunkCache (snd missingRejected)))) =
     [ChunkRequired ''missing.js'', ChunkRequired ''missing.js'']"
proof -
  have h1: "loadChunkAsync exampleEnv (Parent ''A'') (ChunkPathString ''missing.js'') initialState =
      (fst missingRejected, snd missingRejected)"
    by (simp add: missingRejected_def)
  have h2: "rejection (fst missingRejected) =
      Some (Error ''Failed to load chunk missing.js from parent module A''
             (Some (Error ''Cannot find module'' None)))"
    by (simp add: missingRejected_def loadChunkAsync_def loadChunkUncached_def isJs_examples
        exampleEnv_def initialState_def failedToLoad_def Let_def)
  have h3: "chunkPathOf (ChunkDataObject ''missing.js'') = chunkPathOf (ChunkPathString ''missing.js'')"
    by simp
  have h4: "history (snd missingRejected) = [ChunkRequired ''missing.js'']"
    by (simp add: missingRejected_def loadChunkAsync_def loadChunkUncached_def isJs_examples
        exampleEnv_def initialState_def Let_def)
  from rejected_chunk_memoized [OF h1 h2 h3 refl, of exampleEnv "Runtime ''cycle.js''"] h1 h2 h4
  show ?thesis by simp
qed

text \<open>
  Claim C10. \<^verbatim>\<open>isJs\<close>, the test of the regular expression, holds exactly for the paths
  that end with \<^verbatim>\<open>.js\<close>, optionally followed by a \<^verbatim>\<open>?query\<close> and/or a \<^verbatim>\<open>#fragment\<close>;
  for a path with neither \<^verbatim>\<open>?\<close> nor \<^verbatim>\<open>#\<close> that is: the path ends with \<^verbatim>\<open>.js\<close>. For
  every other path \<^verbatim>\<open>loadChunkPath\<close> and \<^verbatim>\<open>loadChunkAsync\<close> return at once and leave
  the state as it was, so the chunk is never required; for a path of that form that is
  not yet loaded (not yet in the chunk cache) they do require the chunk.
\<close>

theorem isJs_exactly_js_suffix:
  "(isJs p \<longleftrightarrow> endsWithJsQueryFragment p) \<and>
   (CHR ''?'' \<notin> set p \<and> CHR ''#'' \<notin> set p \<longrightarrow> (isJs p \<longleftrightarrow> (\<exists>base. p = base @ ''.js''))) \<and>
   (\<not> endsWithJsQueryFragment p \<longrightarrow>
      loadChunkPath E p source s = (Inr (), s) \<and>
      loadChunkAsync E src (ChunkPathString p) s = (UnsupportedLoadChunk, s) \<and>
      loadChunkAsync E src (ChunkDataObject p) s = (UnsupportedLoadChunk, s)) \<and>
   (endsWithJsQueryFragment p \<and> p \<notin> loadedChunks s \<longrightarrow>
      history (snd (loadChunkPath E p source s)) = history s @ [ChunkRequired p]) \<and>
   (endsWithJsQueryFragment p \<and> chunkCache s p = None \<longrightarrow>
      history (snd (loadChunkAsync E src (ChunkPathString p) s)) = history s @ [ChunkRequired p])"
proof -
  have a: "isJs p \<longleftrightarrow> endsWithJsQueryFragment p" by (rule isJs_iff_endsWith)
  have b: "CHR ''?'' \<notin> set p \<and> CHR ''#'' \<notin> set p \<longrightarrow> (isJs p \<longleftrightarrow> (\<exists>base. p = base @ ''.js''))"
    using isJs_plain_path by blast
  have c: "loadChunkPath E p source s = (Inr (), s) \<and>
      loadChunkAsync E src (ChunkPathString p) s = (UnsupportedLoadChunk, s) \<and>
      loadChunkAsync E src (ChunkDataObject p) s = (UnsupportedLoadChunk, s)"
    if "\<not> isJs p"
    using that by (simp add: loadChunkPath_def loadChunkAsync_def)
  have d: "history (snd (loadChunkPath E p source s)) = history s @ [ChunkRequired p]"
    if "isJs p" "p \<notin> loadedChunks s"
    using that by (simp add: loadChunkPath_def Let_def split: sum.splits)
  have e: "history (snd (loadChunkAsync E src (ChunkPathString p) s)) = history s @ [ChunkRequired p]"
    if "isJs p" "chunkCache s p = None"
    using that by (simp add: loadChunkAsync_def loadChunkUncached_def Let_def split: sum.splits)
  from a b c d e show ?thesis by blast
qed

theorem isJs_exactly_js_suffix_witness:
  "isJs ''chunk.js?v=1#top'' \<and> endsWithJsQueryFragment ''chunk.js?v=1#top'' \<and>
   ''chunk.js?v=1#top'' \<notin> loadedChunks initialState \<and>
   history (snd (loadChunkPath exampleEnv ''chunk.js?v=1#top'' None initialState)) =
     [ChunkRequired ''chunk.js?v=1#top''] \<and>
   \<not> isJs ''chunk.mjs'' \<and> \<not> endsWithJsQueryFragment ''chunk.mjs'' \<and>
   loadChunkPath exampleEnv ''chunk.mjs'' None initialState = (Inr (), initialState) \<and>
   loadChunkAsync exampleEnv (Parent ''A'') (ChunkPathString ''chunk.mjs'') initialState =
     (UnsupportedLoadChunk, initialState) \<and>
   \<not> isJs ''chunk.cjs'' \<and> \<not> isJs ''data.json'' \<and> \<not> isJs ''styles.css''"
proof -
  have h1: "isJs ''chunk.js?v=1#top''" "\<not> isJs ''chunk.mjs''" "\<not> isJs ''chunk.cjs''"
    "\<not> isJs ''data.json''" "\<not> isJs ''styles.css''"
    by (rule isJs_examples)+
  have h2: "''chunk.js?v=1#top'' \<notin> loadedChunks initialState" "history initialState = []"
    by (simp_all add: initialState_def)
  from isJs_exactly_js_suffix [of "''chunk.js?v=1#top''" exampleEnv None initialState "Parent ''A''"]
    isJs_exactly_js_suffix [of "''chunk.mjs''" exampleEnv None initialState "Parent ''A''"]
    h1 h2
  show ?thesis by simp
qed

subsection \<open>The module instantiator\<close>

declare instantiateModule.simps [simp del] getOrInstantiateModuleFromParent.simps [simp del]
  commonJsRequire.simps [simp del]

subsubsection \<open>The equations of the recursion\<close>

lemma instantiateModule_missing:
  "moduleFactories s i = None \<Longrightarrow>
   instantiateModule fuel E i src s = Some (Inl (factoryNotAvailable i src), s)"
  by (simp add: instantiateModule.simps)

lemma instantiateModule_0:
  "moduleFactories s i = Some f \<Longrightarrow> instantiateModule 0 E i src s = None"
  by (cases f) (simp add: instantiateModule.simps)

lemma instantiateModule_Suc:
  "moduleFactories s i = Some (ModuleFactory fn body) \<Longrightarrow>
   instantiateModule (Suc n) E i src s =
     (case callFactory (commonJsRequire n E (nextRef s)) E i (nextRef s) (Suc (nextRef s)) body
             (created i s) of
        None \<Rightarrow> None
      | Some (Inl err, s2) \<Rightarrow> Some (Inl err, failed (nextRef s) err s2)
      | Some (Inr u, s2) \<Rightarrow> Some (Inr (nextRef s), succeeded E (nextRef s) s2))"
  by (simp add: instantiateModule.simps created_def failed_def succeeded_def Let_def
      split: option.splits sum.splits prod.splits)

lemma commonJsRequire_eq:
  "commonJsRequire fuel E sm i s =
     (case getOrInstantiateModuleFromParent fuel E i sm s of
        None \<Rightarrow> None
      | Some (Inl err, s1) \<Rightarrow> Some (Inl err, s1)
      | Some (Inr m, s1) \<Rightarrow> Some (Inr (exports (modules s1 m)), returned sm i m s1))"
  by (simp add: commonJsRequire.simps returned_def split: option.splits sum.splits prod.splits)

subsubsection \<open>What every step of a factory keeps, the run keeps\<close>

lemma callFactory_preserves:
  assumes "callFactory r E moduleId m e body s = Some (x, s')"
    and "Q s"
    and req: "\<And>i t y t'. Q t \<Longrightarrow> r i t = Some (y, t') \<Longrightarrow> Q t'"
    and obj: "\<And>t k v. Q t \<Longrightarrow> Q (exported e k v t)"
    and asg: "SAssignExports \<in> set body \<longrightarrow> (\<forall>t. Q t \<longrightarrow> Q (assigned moduleId m t))"
    and lca: "\<And>t d. Q t \<Longrightarrow> Q (snd (loadChunkAsync E (Parent moduleId) d t))"
    and clr: "\<And>t. Q t \<Longrightarrow> Q (clearChunkCache t)"
  shows "Q s'"
  using assms(1,2,5)
proof (induction body arbitrary: s)
  case Nil
  then show ?case by simp
next
  case (Cons st body)
  have asg': "SAssignExports \<in> set body \<longrightarrow> (\<forall>t. Q t \<longrightarrow> Q (assigned moduleId m t))"
    using Cons.prems(3) by simp
  show ?case
  proof (cases st)
    case (SRequire i)
    show ?thesis
    proof (cases "r i s")
      case None
      then show ?thesis using Cons.prems(1) SRequire by simp
    next
      case (Some a)
      obtain y s1 where a: "a = (y, s1)" by (cases a)
      have q1: "Q s1" using req[OF Cons.prems(2)] Some a by simp
      show ?thesis
      proof (cases y)
        case (Inl err)
        then show ?thesis using Cons.prems(1) SRequire Some a q1 by simp
      next
        case (Inr v)
        then have "callFactory r E moduleId m e body s1 = Some (x, s')"
          using Cons.prems(1) SRequire Some a by simp
        then show ?thesis using Cons.IH q1 asg' by blast
      qed
    qed
  next
    case (SExportRequire k i)
    show ?thesis
    proof (cases "r i s")
      case None
      then show ?thesis using Cons.prems(1) SExportRequire by simp
    next
      case (Some a)
      obtain y s1 where a: "a = (y, s1)" by (cases a)
      have q1: "Q s1" using req[OF Cons.prems(2)] Some a by simp
      show ?thesis
      proof (cases y)
        case (Inl err)
        then show ?thesis using Cons.prems(1) SExportRequire Some a q1 by simp
      next
        case (Inr v)
        then have "callFactory r E moduleId m e body (exported e k (JSObject v) s1) = Some (x, s')"
          using Cons.prems(1) SExportRequire Some a by (simp add: exported_def)
        then show ?thesis using Cons.IH obj[OF q1] asg' by blast
      qed
    qed
  next
    case (SExport k v)
    then show ?thesis
      using Cons.prems(1) Cons.IH[OF _ obj[OF Cons.prems(2)] asg']
      by (simp add: exported_def)
  next
    case SAssignExports
    then show ?thesis 
      using Cons.prems Cons.IH[OF _ _ asg', of "assigned moduleId m s"]
      by (simp add: assigned_def)
  next
    case (SThrow err)
    then show ?thesis using Cons.prems by simp
  next
    case (SLoadChunkAsync d)
    then show ?thesis using Cons.prems(1) Cons.IH[OF _ lca[OF Cons.prems(2)] asg'] by simp
  next
    case SClearChunkCache
    then show ?thesis using Cons.prems(1) Cons.IH[OF _ clr[OF Cons.prems(2)] asg'] by simp
  qed
qed


subsubsection \<open>The module cache only grows\<close>

lemma cacheGrows_refl: "cacheGrows s s"
  by (auto simp: cacheGrows_def)

lemma cacheGrows_trans: "cacheGrows a b \<Longrightarrow> cacheGrows b c \<Longrightarrow> cacheGrows a c"
  unfolding cacheGrows_def
  apply (intro conjI allI impI)
   apply blast
  subgoal for i
    apply (cases "moduleCache a i"; cases "moduleCache b i"; cases "moduleCache c i")
    apply (auto)
    done
  done

lemma cacheGrows_same:
  "moduleCache s' = moduleCache s \<Longrightarrow>
   (\<forall>i. count_list (history s') (FactoryCalled i) = count_list (history s) (FactoryCalled i)) \<Longrightarrow>
   cacheGrows s s'"
  by (auto simp: cacheGrows_def)

lemma loadChunkAsync_cache:
  "moduleCache (snd (loadChunkAsync E src d s)) = moduleCache s"
  "count_list (history (snd (loadChunkAsync E src d s))) (FactoryCalled i) =
     count_list (history s) (FactoryCalled i)"
  by (auto simp: loadChunkAsync_def loadChunkUncached_def Let_def split: option.splits sum.splits)

lemma loadChunkPath_cache:
  "moduleCache (snd (loadChunkPath E p src s)) = moduleCache s"
  "count_list (history (snd (loadChunkPath E p src s))) (FactoryCalled i) =
     count_list (history s) (FactoryCalled i)"
  by (auto simp: loadChunkPath_def Let_def split: option.splits sum.splits)

lemma callFactory_cacheGrows:
  assumes "callFactory r E moduleId m e body s = Some (x, s')"
    and "\<And>i t y t'. r i t = Some (y, t') \<Longrightarrow> cacheGrows t t'"
  shows "cacheGrows s s'"
proof (rule callFactory_preserves [OF assms(1), where Q = "cacheGrows s"])
  show "cacheGrows s s" by (rule cacheGrows_refl)
next
  fix i t y t' assume "cacheGrows s t" "r i t = Some (y, t')"
  then show "cacheGrows s t'" using assms(2) cacheGrows_trans by blast
next
  fix t k v assume "cacheGrows s t"
  then show "cacheGrows s (exported e k v t)" by (simp add: cacheGrows_def exported_def)
next
  show "SAssignExports \<in> set body \<longrightarrow> (\<forall>t. cacheGrows s t \<longrightarrow> cacheGrows s (assigned moduleId m t))"
    by (simp add: cacheGrows_def assigned_def)
next
  fix t d assume "cacheGrows s t"
  then show "cacheGrows s (snd (loadChunkAsync E (Parent moduleId) d t))"
    by (simp add: cacheGrows_def loadChunkAsync_cache)
next
  fix t assume "cacheGrows s t"
  then show "cacheGrows s (clearChunkCache t)" by (simp add: cacheGrows_def clearChunkCache_def)
qed

lemma getOrInstantiate_cases:
  assumes "getOrInstantiateModuleFromParent fuel E i sm s = Some (x, s')"
  obtains m where "moduleCache s i = Some m" "x = Inr m" "s' = s"
  | "moduleCache s i = None"
      "instantiateModule fuel E i (Parent (mid (modules s sm))) s = Some (x, s')"
  using assms by (auto simp: getOrInstantiateModuleFromParent.simps split: option.splits)

lemma commonJsRequire_cases:
  assumes "commonJsRequire fuel E sm i s = Some (y, s')"
  obtains err where "getOrInstantiateModuleFromParent fuel E i sm s = Some (Inl err, s')" "y = Inl err"
  | m s1 where "getOrInstantiateModuleFromParent fuel E i sm s = Some (Inr m, s1)"
      "y = Inr (exports (modules s1 m))" "s' = returned sm i m s1"
  using assms by (auto simp: commonJsRequire_eq split: option.splits sum.splits prod.splits)

lemma instantiateModule_cases:
  assumes "instantiateModule fuel E i src s = Some (x, s')"
  obtains "moduleFactories s i = None" "x = Inl (factoryNotAvailable i src)" "s' = s"
  | fn body n err s2 where "moduleFactories s i = Some (ModuleFactory fn body)" "fuel = Suc n"
      "callFactory (commonJsRequire n E (nextRef s)) E i (nextRef s) (Suc (nextRef s)) body
         (created i s) = Some (Inl err, s2)"
      "x = Inl err" "s' = failed (nextRef s) err s2"
  | fn body n s2 where "moduleFactories s i = Some (ModuleFactory fn body)" "fuel = Suc n"
      "callFactory (commonJsRequire n E (nextRef s)) E i (nextRef s) (Suc (nextRef s)) body
         (created i s) = Some (Inr (), s2)"
      "x = Inr (nextRef s)" "s' = succeeded E (nextRef s) s2"
proof (cases "moduleFactories s i")
  case None
  then have "x = Inl (factoryNotAvailable i src)" "s' = s"
    using assms by (simp_all add: instantiateModule_missing)
  then show ?thesis using that(1) None by blast
next
  case (Some f)
  obtain fn body where f: "f = ModuleFactory fn body" by (cases f)
  show ?thesis
  proof (cases fuel)
    case 0
    then show ?thesis using assms Some by (simp add: instantiateModule_0)
  next
    case (Suc n)
    let ?run = "callFactory (commonJsRequire n E (nextRef s)) E i (nextRef s) (Suc (nextRef s)) body
         (created i s)"
    have eq: "instantiateModule fuel E i src s =
        (case ?run of
           None \<Rightarrow> None
         | Some (Inl err, s2) \<Rightarrow> Some (Inl err, failed (nextRef s) err s2)
         | Some (Inr u, s2) \<Rightarrow> Some (Inr (nextRef s), succeeded E (nextRef s) s2))"
      using Some f Suc by (simp only: instantiateModule_Suc)
    show ?thesis
    proof (cases ?run)
      case None
      then show ?thesis using assms eq by simp
    next
      case run: (Some a)
      obtain y s2 where a: "a = (y, s2)" by (cases a)
      show ?thesis
      proof (cases y)
        case (Inl err)
        then have "?run = Some (Inl err, s2)" "x = Inl err" "s' = failed (nextRef s) err s2"
          using assms eq run a by simp_all
        then show ?thesis using that(2)[of fn body n err s2] Some f Suc by blast
      next
        case (Inr u)
        then have "?run = Some (Inr (), s2)" "x = Inr (nextRef s)" "s' = succeeded E (nextRef s) s2"
          using assms eq run a by simp_all
        then show ?thesis using that(3)[of fn body n s2] Some f Suc by blast
      qed
    qed
  qed
qed

lemma instantiateModule_cacheGrows:
  "instantiateModule fuel E i src s = Some (x, s') \<Longrightarrow> moduleCache s i = None \<Longrightarrow> cacheGrows s s'"
proof (induction fuel arbitrary: E i src s x s')
  case 0
  then show ?case by (auto elim!: instantiateModule_cases simp: cacheGrows_refl)
next
  case (Suc n)
  have req: "cacheGrows t t'" if "commonJsRequire n E' sm j t = Some (y, t')" for E' sm j t y t'
    using that
  proof (cases rule: commonJsRequire_cases)
    case (1 err)
    then show ?thesis
      by (auto elim!: getOrInstantiate_cases intro: cacheGrows_refl Suc.IH)
  next
    case (2 m s1)
    then have "cacheGrows t s1"
      by (auto elim!: getOrInstantiate_cases intro: cacheGrows_refl Suc.IH)
    then show ?thesis using 2 by (simp add: cacheGrows_def returned_def)
  qed
  have cr: "cacheGrows s (created i s)"
    using Suc.prems(2) by (auto simp: cacheGrows_def created_def)
  from Suc.prems(1) show ?case
  proof (cases rule: instantiateModule_cases)
    case 1
    then show ?thesis by (simp add: cacheGrows_refl)
  next
    case (2 fn body n' err s2)
    have "cacheGrows (created i s) s2"
      by (rule callFactory_cacheGrows [OF 2(3)]) (use 2(2) req in blast)
    then have "cacheGrows s s2" using cr cacheGrows_trans by blast
    then show ?thesis using 2 by (simp add: cacheGrows_def failed_def)
  next
    case (3 fn body n' s2)
    have "cacheGrows (created i s) s2"
      by (rule callFactory_cacheGrows [OF 3(3)]) (use 3(2) req in blast)
    then have "cacheGrows s s2" using cr cacheGrows_trans by blast
    then show ?thesis using 3
      by (simp add: cacheGrows_def succeeded_def Let_def split: option.splits)
  qed
qed

lemma getOrInstantiate_cacheGrows:
  "getOrInstantiateModuleFromParent fuel E i sm s = Some (x, s') \<Longrightarrow> cacheGrows s s'"
  by (auto elim!: getOrInstantiate_cases intro: cacheGrows_refl instantiateModule_cacheGrows)

lemma commonJsRequire_cacheGrows:
  assumes "commonJsRequire fuel E sm i s = Some (y, s')"
  shows "cacheGrows s s'"
  using assms
proof (cases rule: commonJsRequire_cases)
  case (1 err)
  then show ?thesis by (simp add: getOrInstantiate_cacheGrows)
next
  case (2 m s1)
  then have "cacheGrows s s1" by (simp add: getOrInstantiate_cacheGrows)
  then show ?thesis using 2 by (simp add: cacheGrows_def returned_def)
qed

lemma getOrInstantiateRuntimeModule_cases:
  assumes "getOrInstantiateRuntimeModule fuel E i p s = Some (x, s')"
  obtains m where "moduleCache s i = Some m" "s' = s"
      "x = (if truthy (error (modules s m)) then Inl (error (modules s m)) else Inr m)"
  | "moduleCache s i = None" "instantiateModule fuel E i (Runtime p) s = Some (x, s')"
  using assms
  by (auto simp: getOrInstantiateRuntimeModule_def instantiateRuntimeModule_def
      split: option.splits if_splits)

lemma perform_cacheGrows: "perform fuel E c s = Some s' \<Longrightarrow> cacheGrows s s'"
proof (cases c)
  case (LoadChunk d src)
  assume "perform fuel E c s = Some s'"
  then show ?thesis using LoadChunk
    by (auto simp: loadChunk_def intro!: cacheGrows_same loadChunkPath_cache)
next
  case (LoadChunkAsync src d)
  assume "perform fuel E c s = Some s'"
  then show ?thesis using LoadChunkAsync by (auto intro!: cacheGrows_same loadChunkAsync_cache)
next
  case ClearChunkCache
  assume "perform fuel E c s = Some s'"
  then show ?thesis using ClearChunkCache by (auto simp: clearChunkCache_def intro!: cacheGrows_same)
next
  case (GetOrInstantiateRuntimeModule i p)
  assume "perform fuel E c s = Some s'"
  then obtain x where "getOrInstantiateRuntimeModule fuel E i p s = Some (x, s')"
    using GetOrInstantiateRuntimeModule by auto
  then show ?thesis
    by (cases rule: getOrInstantiateRuntimeModule_cases)
      (auto intro: cacheGrows_refl instantiateModule_cacheGrows)
next
  case (GetOrInstantiateModuleFromParent i sm)
  assume "perform fuel E c s = Some s'"
  then obtain x where "getOrInstantiateModuleFromParent fuel E i sm s = Some (x, s')"
    using GetOrInstantiateModuleFromParent by auto
  then show ?thesis by (rule getOrInstantiate_cacheGrows)
qed

lemma performAll_cacheGrows: "performAll calls s = Some s' \<Longrightarrow> cacheGrows s s'"
proof (induction calls arbitrary: s)
  case Nil
  then show ?case by (simp add: cacheGrows_refl)
next
  case (Cons c calls)
  obtain fuel E k where c: "c = (fuel, E, k)" by (cases c)
  from Cons.prems c obtain s1 where s1: "perform fuel E k s = Some s1" "performAll calls s1 = Some s'"
    by (auto split: option.splits)
  then show ?case using perform_cacheGrows Cons.IH cacheGrows_trans by blast
qed

subsubsection \<open>Records of other modules are not touched\<close>

lemma storeKept_refl: "storeKept s s"
  by (simp add: storeKept_def)

lemma storeKept_trans: "storeKept a b \<Longrightarrow> storeKept b c \<Longrightarrow> storeKept a c"
  by (auto simp: storeKept_def)

lemma storeKept_same:
  "modules s' = modules s \<Longrightarrow> nextRef s \<le> nextRef s' \<Longrightarrow> storeKept s s'"
  by (simp add: storeKept_def)

lemma loadChunkAsync_store:
  "modules (snd (loadChunkAsync E src d s)) = modules s"
  "nextRef s \<le> nextRef (snd (loadChunkAsync E src d s))"
  by (auto simp: loadChunkAsync_def loadChunkUncached_def Let_def split: option.splits sum.splits)

lemma loadChunkPath_store:
  "modules (snd (loadChunkPath E p src s)) = modules s"
  "nextRef (snd (loadChunkPath E p src s)) = nextRef s"
  by (auto simp: loadChunkPath_def Let_def split: option.splits sum.splits)

lemma callFactory_selfKept:
  assumes "callFactory r E moduleId m e body s = Some (x, s')"
    and "m < nextRef s"
    and "\<And>i t y t'. r i t = Some (y, t') \<Longrightarrow> storeKept t t'"
  shows "selfKept m s s'"
proof (rule callFactory_preserves [OF assms(1), where Q = "selfKept m s"])
  show "selfKept m s s" by (simp add: selfKept_def sameButExports_def)
next
  fix i t y t' assume "selfKept m s t" "r i t = Some (y, t')"
  then show "selfKept m s t'" using assms(2) assms(3)[of i t y t']
    by (auto simp: selfKept_def storeKept_def sameButExports_def)
next
  fix t k v assume "selfKept m s t"
  then show "selfKept m s (exported e k v t)" by (simp add: selfKept_def exported_def)
next
  show "SAssignExports \<in> set body \<longrightarrow> (\<forall>t. selfKept m s t \<longrightarrow> selfKept m s (assigned moduleId m t))"
    by (auto simp: selfKept_def assigned_def sameButExports_def)
next
  fix t d assume "selfKept m s t"
  then show "selfKept m s (snd (loadChunkAsync E (Parent moduleId) d t))"
    using loadChunkAsync_store(2)[of t E "Parent moduleId" d]
    by (auto simp: selfKept_def loadChunkAsync_store(1))
next
  fix t assume "selfKept m s t"
  then show "selfKept m s (clearChunkCache t)" by (simp add: selfKept_def clearChunkCache_def)
qed

lemma created_facts:
  "moduleCache (created i s) i = Some (nextRef s)"
  "modules (created i s) (nextRef s) = newModule i (Suc (nextRef s))"
  "objects (created i s) (Suc (nextRef s)) = Map.empty"
  "nextRef (created i s) = Suc (Suc (nextRef s))"
  "history (created i s) = history s @ [FactoryCalled i]"
  "r < nextRef s \<Longrightarrow> modules (created i s) r = modules s r"
  by (simp_all add: created_def)

lemma succeeded_fresh:
  "namespaceObject (modules s m) = None \<Longrightarrow>
   succeeded E m s = s\<lparr>modules := (modules s)(m := (modules s m)\<lparr>loaded := True\<rparr>)\<rparr>"
  by (simp add: succeeded_def Let_def)

text \<open>What a run of the factory of a new record leaves of the record.\<close>

lemma callFactory_new_record:
  assumes "callFactory (commonJsRequire n E (nextRef s)) E i (nextRef s) (Suc (nextRef s)) body
             (created i s) = Some (y, s2)"
    and "\<forall>E sm j t y t'. commonJsRequire n E sm j t = Some (y, t') \<longrightarrow> storeKept t t'"
  shows "error (modules s2 (nextRef s)) = Undefined \<and> loaded (modules s2 (nextRef s)) = False \<and>
         mid (modules s2 (nextRef s)) = i \<and> namespaceObject (modules s2 (nextRef s)) = None \<and>
         nextRef s < nextRef s2 \<and> (\<forall>r<nextRef s. modules s2 r = modules s r)"
proof -
  have "selfKept (nextRef s) (created i s) s2"
    by (rule callFactory_selfKept [OF assms(1)]) (use assms(2) in \<open>auto simp: created_facts\<close>)
  then show ?thesis
    by (auto simp: selfKept_def sameButExports_def created_facts newModule_def)
qed

lemma callFactory_exports_kept:
  assumes "callFactory r E moduleId m e body s = Some (x, s')"
    and "m < nextRef s"
    and "SAssignExports \<notin> set body"
    and "\<forall>i t y t'. r i t = Some (y, t') \<longrightarrow> storeKept t t'"
  shows "exports (modules s' m) = exports (modules s m)"
proof -
  have "m < nextRef s' \<and> exports (modules s' m) = exports (modules s m)"
  proof (rule callFactory_preserves [OF assms(1),
        where Q = "\<lambda>t::runtime_state. m < nextRef t \<and> exports (modules t m) = exports (modules s m)"])
    show "m < nextRef s \<and> exports (modules s m) = exports (modules s m)" using assms(2) by simp
  next
    fix i y and t t' :: runtime_state
    assume "m < nextRef t \<and> exports (modules t m) = exports (modules s m)" "r i t = Some (y, t')"
    then show "m < nextRef t' \<and> exports (modules t' m) = exports (modules s m)"
      using assms(4) [rule_format, of i t y t'] by (auto simp: storeKept_def)
  next
    fix k v and t :: runtime_state assume "m < nextRef t \<and> exports (modules t m) = exports (modules s m)"
    then show "m < nextRef (exported e k v t) \<and>
        exports (modules (exported e k v t) m) = exports (modules s m)"
      by (simp add: exported_def)
  next
    show "SAssignExports \<in> set body \<longrightarrow>
        (\<forall>t::runtime_state. m < nextRef t \<and> exports (modules t m) = exports (modules s m) \<longrightarrow>
           m < nextRef (assigned moduleId m t) \<and>
           exports (modules (assigned moduleId m t) m) = exports (modules s m))"
      using assms(3) by simp
  next
    fix d and t :: runtime_state assume "m < nextRef t \<and> exports (modules t m) = exports (modules s m)"
    then show "m < nextRef (snd (loadChunkAsync E (Parent moduleId) d t)) \<and>
        exports (modules (snd (loadChunkAsync E (Parent moduleId) d t)) m) = exports (modules s m)"
      using loadChunkAsync_store(2) [of t E "Parent moduleId" d]
      by (simp add: loadChunkAsync_store(1))
  next
    fix t :: runtime_state assume "m < nextRef t \<and> exports (modules t m) = exports (modules s m)"
    then show "m < nextRef (clearChunkCache t) \<and>
        exports (modules (clearChunkCache t) m) = exports (modules s m)"
      by (simp add: clearChunkCache_def)
  qed
  then show ?thesis by simp
qed

lemma instantiateModule_storeKept:
  "instantiateModule fuel E i src s = Some (x, s') \<Longrightarrow> storeKept s s'"
proof (induction fuel arbitrary: E i src s x s')
  case 0
  then show ?case by (auto elim!: instantiateModule_cases simp: storeKept_refl)
next
  case (Suc n)
  have req: "storeKept t t'" if "commonJsRequire n E' sm j t = Some (y, t')" for E' sm j t y t'
    using that
  proof (cases rule: commonJsRequire_cases)
    case (1 err)
    then show ?thesis
      by (auto elim!: getOrInstantiate_cases intro: storeKept_refl Suc.IH)
  next
    case (2 m s1)
    then have "storeKept t s1"
      by (auto elim!: getOrInstantiate_cases intro: storeKept_refl Suc.IH)
    then show ?thesis using 2 by (simp add: storeKept_def returned_def)
  qed
  then have req': "\<forall>E sm j t y t'. commonJsRequire n E sm j t = Some (y, t') \<longrightarrow> storeKept t t'"
    by blast
  from Suc.prems(1) show ?case
  proof (cases rule: instantiateModule_cases)
    case 1
    then show ?thesis by (simp add: storeKept_refl)
  next
    case (2 fn body n' err s2)
    then have run: "callFactory (commonJsRequire n E (nextRef s)) E i (nextRef s) (Suc (nextRef s)) body
         (created i s) = Some (Inl err, s2)" by simp
    show ?thesis
      using callFactory_new_record [OF run req'] 2(5)
      by (auto simp: storeKept_def failed_def)
  next
    case (3 fn body n' s2)
    then have run: "callFactory (commonJsRequire n E (nextRef s)) E i (nextRef s) (Suc (nextRef s)) body
         (created i s) = Some (Inr (), s2)" by simp
    show ?thesis
      using callFactory_new_record [OF run req'] 3(5)
      by (auto simp: storeKept_def succeeded_fresh)
  qed
qed


lemma getOrInstantiate_storeKept:
  "getOrInstantiateModuleFromParent fuel E i sm s = Some (x, s') \<Longrightarrow> storeKept s s'"
  by (auto elim!: getOrInstantiate_cases intro: storeKept_refl instantiateModule_storeKept)

lemma commonJsRequire_storeKept:
  assumes "commonJsRequire fuel E sm i s = Some (y, s')"
  shows "storeKept s s'"
  using assms
proof (cases rule: commonJsRequire_cases)
  case (1 err)
  then show ?thesis by (simp add: getOrInstantiate_storeKept)
next
  case (2 m s1)
  then have "storeKept s s1" by (simp add: getOrInstantiate_storeKept)
  then show ?thesis using 2 by (simp add: storeKept_def returned_def)
qed

lemma perform_storeKept: "perform fuel E c s = Some s' \<Longrightarrow> storeKept s s'"
proof (cases c)
  case (LoadChunk d src)
  assume "perform fuel E c s = Some s'"
  then show ?thesis using LoadChunk
    by (auto simp: loadChunk_def loadChunkPath_store intro!: storeKept_same)
next
  case (LoadChunkAsync src d)
  assume "perform fuel E c s = Some s'"
  then show ?thesis using LoadChunkAsync by (auto intro!: storeKept_same loadChunkAsync_store)
next
  case ClearChunkCache
  assume "perform fuel E c s = Some s'"
  then show ?thesis using ClearChunkCache by (auto simp: clearChunkCache_def intro!: storeKept_same)
next
  case (GetOrInstantiateRuntimeModule i p)
  assume "perform fuel E c s = Some s'"
  then obtain x where "getOrInstantiateRuntimeModule fuel E i p s = Some (x, s')"
    using GetOrInstantiateRuntimeModule by auto
  then show ?thesis
    by (cases rule: getOrInstantiateRuntimeModule_cases)
      (auto intro: storeKept_refl instantiateModule_storeKept)
next
  case (GetOrInstantiateModuleFromParent i sm)
  assume "perform fuel E c s = Some s'"
  then obtain x where "getOrInstantiateModuleFromParent fuel E i sm s = Some (x, s')"
    using GetOrInstantiateModuleFromParent by auto
  then show ?thesis by (rule getOrInstantiate_storeKept)
qed

lemma performAll_storeKept: "performAll calls s = Some s' \<Longrightarrow> storeKept s s'"
proof (induction calls arbitrary: s)
  case Nil
  then show ?case by (simp add: storeKept_refl)
next
  case (Cons c calls)
  obtain fuel E k where c: "c = (fuel, E, k)" by (cases c)
  from Cons.prems c obtain s1 where s1: "perform fuel E k s = Some s1" "performAll calls s1 = Some s'"
    by (auto split: option.splits)
  then show ?case using perform_storeKept Cons.IH storeKept_trans by blast
qed

text \<open>The record that an instantiation leaves in the cache.\<close>

lemma instantiateModule_record:
  assumes "moduleFactories s i = Some f"
    and "instantiateModule fuel E i src s = Some (x, s1)"
  shows "moduleCache s1 i = Some (nextRef s) \<and> nextRef s < nextRef s1 \<and>
         mid (modules s1 (nextRef s)) = i \<and>
         (case x of
            Inl err \<Rightarrow> error (modules s1 (nextRef s)) = err \<and> \<not> loaded (modules s1 (nextRef s))
          | Inr m \<Rightarrow> m = nextRef s \<and> error (modules s1 (nextRef s)) = Undefined \<and>
                     loaded (modules s1 (nextRef s)))"
proof -
  have req: "\<forall>E sm j t y t'. commonJsRequire n E sm j t = Some (y, t') \<longrightarrow> storeKept t t'" for n
    using commonJsRequire_storeKept by blast
  have grow: "cacheGrows t t'" if "commonJsRequire n E' sm j t = Some (y, t')" for n E' sm j t y t'
    using that by (rule commonJsRequire_cacheGrows)
  from assms(2) show ?thesis
  proof (cases rule: instantiateModule_cases)
    case 1
    then show ?thesis using assms(1) by simp
  next
    case (2 fn body n err s2)
    have "cacheGrows (created i s) s2"
      by (rule callFactory_cacheGrows [OF 2(3)]) (use grow in blast)
    then have "moduleCache s2 i = Some (nextRef s)"
      by (simp add: cacheGrows_def created_facts)
    then show ?thesis using callFactory_new_record [OF 2(3) req] 2(4,5)
      by (simp add: failed_def)
  next
    case (3 fn body n s2)
    have "cacheGrows (created i s) s2"
      by (rule callFactory_cacheGrows [OF 3(3)]) (use grow in blast)
    then have "moduleCache s2 i = Some (nextRef s)"
      by (simp add: cacheGrows_def created_facts)
    then show ?thesis using callFactory_new_record [OF 3(3) req] 3(4,5)
      by (simp add: succeeded_fresh)
  qed
qed

lemma lookups_of_cached:
  assumes "moduleCache s i = Some m"
  shows "getOrInstantiateModuleFromParent fuel E i sm s = Some (Inr m, s)"
    and "getOrInstantiateRuntimeModule fuel E i p s =
           Some (if truthy (error (modules s m)) then Inl (error (modules s m)) else Inr m, s)"
  using assms
  by (auto simp: getOrInstantiateModuleFromParent.simps getOrInstantiateRuntimeModule_def
      split: option.splits)

subsubsection \<open>A module in progress\<close>

lemma snoc_split:
  "xs @ x # ys = zs @ [z] \<longleftrightarrow>
     (ys = [] \<and> xs = zs \<and> x = z) \<or> (\<exists>ys'. ys = ys' @ [z] \<and> zs = xs @ x # ys')"
proof (cases ys rule: rev_cases)
  case Nil
  then show ?thesis by auto
next
  case (snoc ys' y)
  have "xs @ x # ys' @ [y] = (xs @ x # ys') @ [y]" by simp
  then show ?thesis using snoc by (auto simp del: append_assoc)
qed

lemma capturesCurrent_Nil: "capturesCurrent a e []"
  by (simp add: capturesCurrent_def)

lemma capturesCurrent_other:
  assumes "capturesCurrent a e evs"
    and "\<forall>p r l. ev \<noteq> RequireReturned p a r l" and "\<forall>r. ev \<noteq> ExportsAssigned a r"
  shows "capturesCurrent a e (evs @ [ev])"
  unfolding capturesCurrent_def
proof (intro allI impI)
  fix xs p r l ys
  assume "evs @ [ev] = xs @ RequireReturned p a r l # ys"
  then have "xs @ RequireReturned p a r l # ys = evs @ [ev]" by simp
  then obtain ys' where ys: "ys = ys' @ [ev]" "evs = xs @ RequireReturned p a r l # ys'"
    using assms(2) unfolding snoc_split by blast
  from assms(1) ys(2) have "\<not> l \<and> ((\<forall>r'. ExportsAssigned a r' \<notin> set ys') \<longrightarrow> r = e)"
    unfolding capturesCurrent_def by blast
  then show "\<not> l \<and> ((\<forall>r'. ExportsAssigned a r' \<notin> set ys) \<longrightarrow> r = e)"
    using ys(1) by simp
qed

lemma capturesCurrent_require:
  assumes "capturesCurrent a e evs"
  shows "capturesCurrent a e (evs @ [RequireReturned p a e False])"
  unfolding capturesCurrent_def
proof (intro allI impI)
  fix xs p' r l ys
  assume "evs @ [RequireReturned p a e False] = xs @ RequireReturned p' a r l # ys"
  then have "xs @ RequireReturned p' a r l # ys = evs @ [RequireReturned p a e False]" by simp
  then consider "ys = []" "r = e" "\<not> l"
    | ys' where "ys = ys' @ [RequireReturned p a e False]" "evs = xs @ RequireReturned p' a r l # ys'"
    unfolding snoc_split by blast
  then show "\<not> l \<and> ((\<forall>r'. ExportsAssigned a r' \<notin> set ys) \<longrightarrow> r = e)"
  proof cases
    case 1
    then show ?thesis by simp
  next
    case 2
    from assms 2(2) have "\<not> l \<and> ((\<forall>r'. ExportsAssigned a r' \<notin> set ys') \<longrightarrow> r = e)"
      unfolding capturesCurrent_def by blast
    then show ?thesis using 2(1) by simp
  qed
qed

lemma capturesCurrent_assign:
  assumes "capturesCurrent a e evs"
  shows "capturesCurrent a e' (evs @ [ExportsAssigned a e'])"
  unfolding capturesCurrent_def
proof (intro allI impI)
  fix xs p r l ys
  assume "evs @ [ExportsAssigned a e'] = xs @ RequireReturned p a r l # ys"
  then have "xs @ RequireReturned p a r l # ys = evs @ [ExportsAssigned a e']" by simp
  then obtain ys' where ys: "ys = ys' @ [ExportsAssigned a e']"
      "evs = xs @ RequireReturned p a r l # ys'"
    unfolding snoc_split by blast
  from assms ys(2) have "\<not> l"
    unfolding capturesCurrent_def by blast
  then show "\<not> l \<and> ((\<forall>r'. ExportsAssigned a r' \<notin> set ys) \<longrightarrow> r = e')"
    using ys(1) by auto
qed

lemma loadChunkAsync_history:
  "history (snd (loadChunkAsync E src d s)) = history s \<or>
   history (snd (loadChunkAsync E src d s)) = history s @ [ChunkRequired (chunkPathOf d)]"
  by (auto simp: loadChunkAsync_def loadChunkUncached_def Let_def split: option.splits sum.splits)

lemma inProgress_loadChunkAsync:
  assumes "inProgress a m n asg t"
  shows "inProgress a m n asg (snd (loadChunkAsync E src d t))"
proof -
  let ?t = "snd (loadChunkAsync E src d t)"
  have n: "n \<le> length (history t)" using assms by (simp add: inProgress_def)
  have "capturesCurrent a (exports (modules t m)) (drop n (history ?t))"
    using loadChunkAsync_history [of E src d t] assms n
    by (auto simp: inProgress_def intro: capturesCurrent_other)
  moreover have "n \<le> length (history ?t)"
    using loadChunkAsync_history [of E src d t] n by auto
  moreover have "\<forall>r'. ExportsAssigned a r' \<in> set (drop n (history ?t)) \<longrightarrow> asg"
    using loadChunkAsync_history [of E src d t] assms n by (auto simp: inProgress_def)
  ultimately show ?thesis
    using assms loadChunkAsync_store(2) [of t E src d]
    by (simp add: inProgress_def loadChunkAsync_cache(1) loadChunkAsync_store(1))
qed

lemma inProgress_returned:
  assumes "inProgress a m n asg t" and "j = a \<longrightarrow> mm = m"
  shows "inProgress a m n asg (returned sm j mm t)"
proof (cases "j = a")
  case True
  then show ?thesis
    using assms capturesCurrent_require [of a "exports (modules t m)" "drop n (history t)"]
    by (simp add: inProgress_def returned_def)
next
  case False
  then show ?thesis
    using assms
      capturesCurrent_other [of a "exports (modules t m)" "drop n (history t)"
        "RequireReturned (mid (modules t sm)) j (exports (modules t mm)) (loaded (modules t mm))"]
    by (simp add: inProgress_def returned_def)
qed

lemma inProgress_created:
  assumes "inProgress a m n asg t" and "moduleCache t i = None"
  shows "inProgress a m n asg (created i t)" and "nextRef t \<noteq> m" and "i \<noteq> a"
  using assms capturesCurrent_other [of a "exports (modules t m)" "drop n (history t)" "FactoryCalled i"]
  by (auto simp: inProgress_def created_def)

lemma inProgress_finished:
  assumes "inProgress a m n asg t" and "m' \<noteq> m"
  shows "inProgress a m n asg (failed m' err t)" and "inProgress a m n asg (succeeded E m' t)"
  using assms by (auto simp: inProgress_def failed_def succeeded_def Let_def split: option.splits)

lemma inProgress_assigned:
  assumes "inProgress a m n asg t" and "j = a \<longleftrightarrow> m' = m" and "j = a \<longrightarrow> asg"
  shows "inProgress a m n asg (assigned j m' t)"
proof (cases "j = a")
  case True
  then show ?thesis
    using assms
      capturesCurrent_assign [of a "exports (modules t m)" "drop n (history t)" "nextRef t"]
    by (simp add: inProgress_def assigned_def)
next
  case False
  then show ?thesis
    using assms
      capturesCurrent_other [of a "exports (modules t m)" "drop n (history t)"
        "ExportsAssigned j (nextRef t)"]
    by (simp add: inProgress_def assigned_def)
qed

lemma callFactory_inProgress:
  assumes "callFactory r E j m' e' body t = Some (x, t')"
    and "inProgress a m n asg t"
    and "j = a \<longleftrightarrow> m' = m"
    and "j = a \<and> SAssignExports \<in> set body \<longrightarrow> asg"
    and "\<And>i u y u'. inProgress a m n asg u \<Longrightarrow> r i u = Some (y, u') \<Longrightarrow> inProgress a m n asg u'"
  shows "inProgress a m n asg t'"
proof (rule callFactory_preserves [OF assms(1), where Q = "inProgress a m n asg"])
  show "inProgress a m n asg t" by (rule assms(2))
next
  fix i u y u' assume "inProgress a m n asg u" "r i u = Some (y, u')"
  then show "inProgress a m n asg u'" by (rule assms(5))
next
  fix u k v assume "inProgress a m n asg u"
  then show "inProgress a m n asg (exported e' k v u)" by (simp add: inProgress_def exported_def)
next
  show "SAssignExports \<in> set body \<longrightarrow>
      (\<forall>u. inProgress a m n asg u \<longrightarrow> inProgress a m n asg (assigned j m' u))"
    using assms(3,4) inProgress_assigned by blast
next
  fix u d assume "inProgress a m n asg u"
  then show "inProgress a m n asg (snd (loadChunkAsync E (Parent j) d u))"
    by (rule inProgress_loadChunkAsync)
next
  fix u assume "inProgress a m n asg u"
  then show "inProgress a m n asg (clearChunkCache u)" by (simp add: inProgress_def clearChunkCache_def)
qed

lemma instantiateModule_inProgress:
  "instantiateModule fuel E i src t = Some (x, t') \<Longrightarrow> moduleCache t i = None \<Longrightarrow>
   inProgress a m n asg t \<Longrightarrow> inProgress a m n asg t'"
proof (induction fuel arbitrary: E i src t x t')
  case 0
  then show ?case by (auto elim!: instantiateModule_cases)
next
  case (Suc k)
  have req: "inProgress a m n asg u'"
    if "inProgress a m n asg u" "commonJsRequire k E' sm j u = Some (y, u')" for E' sm j u y u'
    using that(2)
  proof (cases rule: commonJsRequire_cases)
    case (1 err)
    then show ?thesis using that(1) by (auto elim!: getOrInstantiate_cases intro: Suc.IH)
  next
    case (2 mm s1)
    from 2(1) have "inProgress a m n asg s1 \<and> (j = a \<longrightarrow> mm = m)"
    proof (cases rule: getOrInstantiate_cases)
      case (1 m0)
      then show ?thesis using that(1) by (auto simp: inProgress_def)
    next
      case 2
      then have "j \<noteq> a" using that(1) by (auto simp: inProgress_def)
      then show ?thesis using 2 that(1) Suc.IH by blast
    qed
    then show ?thesis using 2(3) inProgress_returned by blast
  qed
  from Suc.prems(1) show ?case
  proof (cases rule: instantiateModule_cases)
    case 1
    then show ?thesis using Suc.prems(3) by simp
  next
    case (2 fn body k' err s2)
    have "inProgress a m n asg s2"
      by (rule callFactory_inProgress [OF 2(3) inProgress_created(1) [OF Suc.prems(3,2)]])
        (use inProgress_created(2,3) [OF Suc.prems(3,2)] 2(2) req in auto)
    then show ?thesis using 2(5) inProgress_created(2) [OF Suc.prems(3,2)] inProgress_finished(1)
      by blast
  next
    case (3 fn body k' s2)
    have "inProgress a m n asg s2"
      by (rule callFactory_inProgress [OF 3(3) inProgress_created(1) [OF Suc.prems(3,2)]])
        (use inProgress_created(2,3) [OF Suc.prems(3,2)] 3(2) req in auto)
    then show ?thesis using 3(5) inProgress_created(2) [OF Suc.prems(3,2)] inProgress_finished(2)
      by blast
  qed
qed

lemma commonJsRequire_inProgress:
  assumes "inProgress a m n asg u" and "commonJsRequire k E sm j u = Some (y, u')"
  shows "inProgress a m n asg u'"
  using assms(2)
proof (cases rule: commonJsRequire_cases)
  case (1 err)
  then show ?thesis using assms(1)
    by (auto elim!: getOrInstantiate_cases intro: instantiateModule_inProgress)
next
  case (2 mm s1)
  from 2(1) have "inProgress a m n asg s1 \<and> (j = a \<longrightarrow> mm = m)"
  proof (cases rule: getOrInstantiate_cases)
    case (1 m0)
    then show ?thesis using assms(1) by (auto simp: inProgress_def)
  next
    case 2
    then have "j \<noteq> a" using assms(1) by (auto simp: inProgress_def)
    then show ?thesis using 2 assms(1) instantiateModule_inProgress by blast
  qed
  then show ?thesis using 2(3) inProgress_returned by blast
qed

subsubsection \<open>With enough fuel the instantiation returns\<close>

lemma registerEntries_within:
  "dom mf \<subseteq> U \<Longrightarrow> idsOf chunkModules \<subseteq> U \<Longrightarrow> dom (registerEntries chunkModules mf) \<subseteq> U"
  using registerEntries_dom [of chunkModules mf] by blast

lemma loadChunkUncached_idsWithin:
  assumes "idsWithin U E s"
  shows "dom (moduleFactories (snd (loadChunkUncached E p s))) \<subseteq> U"
proof (cases "requireResolved E p")
  case (Inl err)
  then show ?thesis using assms by (simp add: loadChunkUncached_def idsWithin_def)
next
  case (Inr chunkModules)
  then have "idsOf chunkModules \<subseteq> U" using assms by (simp add: idsWithin_def)
  then have "dom (registerEntries chunkModules (moduleFactories s)) \<subseteq> U"
    using assms by (intro registerEntries_within) (simp_all add: idsWithin_def)
  then show ?thesis using Inr by (simp add: loadChunkUncached_def)
qed

lemma loadChunkAsync_idsWithin:
  assumes "idsWithin U E s"
  shows "idsWithin U E (snd (loadChunkAsync E src d s))"
proof -
  have "dom (moduleFactories (snd (loadChunkAsync E src d s))) \<subseteq> U"
    using assms loadChunkUncached_idsWithin [OF assms, of "chunkPathOf d"]
    by (auto simp: idsWithin_def loadChunkAsync_def Let_def split: option.splits sum.splits prod.splits)
  then show ?thesis using assms by (simp add: idsWithin_def)
qed

lemma callFactory_idsWithin:
  assumes "callFactory r E j m e body s = Some (x, s')"
    and "idsWithin U E s"
    and "\<And>i t y t'. idsWithin U E t \<Longrightarrow> r i t = Some (y, t') \<Longrightarrow> idsWithin U E t'"
  shows "idsWithin U E s'"
proof (rule callFactory_preserves [OF assms(1), where Q = "idsWithin U E"])
  show "idsWithin U E s" by (rule assms(2))
next
  fix i t y t' assume "idsWithin U E t" "r i t = Some (y, t')"
  then show "idsWithin U E t'" by (rule assms(3))
next
  fix t k v assume "idsWithin U E t"
  then show "idsWithin U E (exported e k v t)" by (simp add: idsWithin_def exported_def)
next
  show "SAssignExports \<in> set body \<longrightarrow> (\<forall>t. idsWithin U E t \<longrightarrow> idsWithin U E (assigned j m t))"
    by (simp add: idsWithin_def assigned_def)
next
  fix t d assume "idsWithin U E t"
  then show "idsWithin U E (snd (loadChunkAsync E (Parent j) d t))"
    by (rule loadChunkAsync_idsWithin)
next
  fix t assume "idsWithin U E t"
  then show "idsWithin U E (clearChunkCache t)" by (simp add: idsWithin_def clearChunkCache_def)
qed

lemma instantiateModule_idsWithin:
  "instantiateModule fuel E i src s = Some (x, s') \<Longrightarrow> idsWithin U E s \<Longrightarrow> idsWithin U E s'"
proof (induction fuel arbitrary: i src s x s')
  case 0
  then show ?case by (auto elim!: instantiateModule_cases)
next
  case (Suc n)
  have req: "idsWithin U E t'"
    if "idsWithin U E t" "commonJsRequire n E sm j t = Some (y, t')" for sm j t y t'
    using that(2)
  proof (cases rule: commonJsRequire_cases)
    case (1 err)
    then show ?thesis using that(1) by (auto elim!: getOrInstantiate_cases intro: Suc.IH)
  next
    case (2 mm s1)
    then have "idsWithin U E s1" using that(1) by (auto elim!: getOrInstantiate_cases intro: Suc.IH)
    then show ?thesis using 2 by (simp add: idsWithin_def returned_def)
  qed
  have cr: "idsWithin U E (created i s)" using Suc.prems(2) by (simp add: idsWithin_def created_def)
  from Suc.prems(1) show ?case
  proof (cases rule: instantiateModule_cases)
    case 1
    then show ?thesis using Suc.prems(2) by simp
  next
    case (2 fn body k err s2)
    have "idsWithin U E s2"
      by (rule callFactory_idsWithin [OF 2(3) cr]) (use 2(2) req in blast)
    then show ?thesis using 2(5) by (simp add: idsWithin_def failed_def)
  next
    case (3 fn body k s2)
    have "idsWithin U E s2"
      by (rule callFactory_idsWithin [OF 3(3) cr]) (use 3(2) req in blast)
    then show ?thesis using 3(5)
      by (auto simp: idsWithin_def succeeded_def Let_def split: option.splits)
  qed
qed

lemma cacheGrows_card:
  assumes "cacheGrows s s'" and "finite U"
  shows "card (U - dom (moduleCache s')) \<le> card (U - dom (moduleCache s))"
proof -
  have "dom (moduleCache s) \<subseteq> dom (moduleCache s')" using assms(1) by (auto simp: cacheGrows_def)
  then have "U - dom (moduleCache s') \<subseteq> U - dom (moduleCache s)" by blast
  then show ?thesis using assms(2) by (simp add: card_mono)
qed

lemma callFactory_returns:
  assumes "Q s"
    and "\<And>i t. Q t \<Longrightarrow> \<exists>y t'. r i t = Some (y, t') \<and> Q t'"
    and "\<And>t k v. Q t \<Longrightarrow> Q (exported e k v t)"
    and "\<And>t. Q t \<Longrightarrow> Q (assigned j m t)"
    and "\<And>t d. Q t \<Longrightarrow> Q (snd (loadChunkAsync E (Parent j) d t))"
    and "\<And>t. Q t \<Longrightarrow> Q (clearChunkCache t)"
  shows "\<exists>x s'. callFactory r E j m e body s = Some (x, s')"
  using assms(1)
proof (induction body arbitrary: s)
  case Nil
  then show ?case by simp
next
  case (Cons st body)
  show ?case
  proof (cases st)
    case (SRequire i)
    obtain y t' where r: "r i s = Some (y, t')" "Q t'" using assms(2) [OF Cons.prems] by blast
    then show ?thesis using SRequire Cons.IH [OF r(2)] by (cases y) auto
  next
    case (SExportRequire k i)
    obtain y t' where r: "r i s = Some (y, t')" "Q t'" using assms(2) [OF Cons.prems] by blast
    show ?thesis
    proof (cases y)
      case (Inl err)
      then show ?thesis using SExportRequire r by simp
    next
      case (Inr v)
      then show ?thesis
        using SExportRequire r Cons.IH [OF assms(3) [OF r(2), of k "JSObject v"]]
        by (simp add: exported_def)
    qed
  next
    case (SExport k v)
    then show ?thesis using Cons.IH [OF assms(3) [OF Cons.prems, of k "JSString v"]]
      by (simp add: exported_def)
  next
    case SAssignExports
    then show ?thesis using Cons.IH [OF assms(4) [OF Cons.prems]] by (simp add: assigned_def)
  next
    case (SThrow err)
    then show ?thesis by simp
  next
    case (SLoadChunkAsync d)
    then show ?thesis using Cons.IH [OF assms(5) [OF Cons.prems, of d]] by simp
  next
    case SClearChunkCache
    then show ?thesis using Cons.IH [OF assms(6) [OF Cons.prems]] by simp
  qed
qed

lemma fuelEnough_steps:
  assumes "fuelEnough U E n t"
  shows "fuelEnough U E n (exported e k v t)" and "fuelEnough U E n (assigned i m t)"
    and "fuelEnough U E n (snd (loadChunkAsync E src d t))" and "fuelEnough U E n (clearChunkCache t)"
  using assms loadChunkAsync_idsWithin [of U E t src d]
  by (auto simp: fuelEnough_def idsWithin_def exported_def assigned_def clearChunkCache_def
      loadChunkAsync_cache(1))

lemma instantiateModule_returns:
  "fuelEnough U E fuel s \<Longrightarrow> moduleCache s i = None \<Longrightarrow>
   \<exists>x s'. instantiateModule fuel E i src s = Some (x, s')"
proof (induction fuel arbitrary: i src s)
  case 0
  then have "U \<subseteq> dom (moduleCache s)" "dom (moduleFactories s) \<subseteq> U"
    by (auto simp: fuelEnough_def idsWithin_def)
  then have "moduleFactories s i = None" using "0.prems"(2) by blast
  then show ?case by (simp add: instantiateModule_missing)
next
  case (Suc n)
  show ?case
  proof (cases "moduleFactories s i")
    case None
    then show ?thesis by (simp add: instantiateModule_missing)
  next
    case (Some f)
    obtain fn body where f: "f = ModuleFactory fn body" by (cases f)
    have fin: "finite U" and iU: "i \<in> U" using Suc.prems(1) Some
      by (auto simp: fuelEnough_def idsWithin_def)
    have "U - dom (moduleCache (created i s)) = (U - dom (moduleCache s)) - {i}"
      by (auto simp: created_def)
    moreover have "card ((U - dom (moduleCache s)) - {i}) < card (U - dom (moduleCache s))"
      by (rule card_Diff1_less) (use fin iU Suc.prems(2) in auto)
    ultimately have "card (U - dom (moduleCache (created i s))) < card (U - dom (moduleCache s))"
      by simp
    then have start: "fuelEnough U E n (created i s)"
      using Suc.prems(1) by (simp add: fuelEnough_def idsWithin_def created_def)
    have req: "\<exists>y t'. commonJsRequire n E (nextRef s) j t = Some (y, t') \<and> fuelEnough U E n t'"
      if q: "fuelEnough U E n t" for j t
    proof -
      have "\<exists>x s1. getOrInstantiateModuleFromParent n E j (nextRef s) t = Some (x, s1)"
        using Suc.IH [OF q] by (cases "moduleCache t j") (simp_all add: getOrInstantiateModuleFromParent.simps)
      then obtain x0 s1 where g: "getOrInstantiateModuleFromParent n E j (nextRef s) t = Some (x0, s1)"
        by blast
      have "\<exists>y t'. commonJsRequire n E (nextRef s) j t = Some (y, t')"
        using g by (cases x0) (simp_all add: commonJsRequire_eq)
      then obtain y t' where c: "commonJsRequire n E (nextRef s) j t = Some (y, t')"
        by blast
      have "idsWithin U E t'"
        using c q
      proof (cases rule: commonJsRequire_cases)
        case (1 err)
        then show ?thesis using q
          by (auto elim!: getOrInstantiate_cases intro: instantiateModule_idsWithin simp: fuelEnough_def)
      next
        case (2 mm s1)
        then have "idsWithin U E s1" using q
          by (auto elim!: getOrInstantiate_cases intro: instantiateModule_idsWithin simp: fuelEnough_def)
        then show ?thesis using 2 by (simp add: idsWithin_def returned_def)
      qed
      moreover have "card (U - dom (moduleCache t')) \<le> n"
        using cacheGrows_card [OF commonJsRequire_cacheGrows [OF c] fin] q by (simp add: fuelEnough_def)
      ultimately show ?thesis using c by (simp add: fuelEnough_def)
    qed
    have "\<exists>x s2. callFactory (commonJsRequire n E (nextRef s)) E i (nextRef s) (Suc (nextRef s)) body
        (created i s) = Some (x, s2)"
    proof (rule callFactory_returns [where Q = "fuelEnough U E n", OF start])
      show "\<exists>y t'. commonJsRequire n E (nextRef s) j t = Some (y, t') \<and> fuelEnough U E n t'"
        if "fuelEnough U E n t" for j t
        using that by (rule req)
    qed (rule fuelEnough_steps; assumption)+
    then obtain y s2 where run: "callFactory (commonJsRequire n E (nextRef s)) E i (nextRef s)
        (Suc (nextRef s)) body (created i s) = Some (y, s2)"
      by blast
    have "instantiateModule (Suc n) E i src s =
        (case y of Inl err \<Rightarrow> Some (Inl err, failed (nextRef s) err s2)
         | Inr u \<Rightarrow> Some (Inr (nextRef s), succeeded E (nextRef s) s2))"
      using Some f run by (simp add: instantiateModule_Suc)
    then show ?thesis by (cases y) simp_all
  qed
qed

subsection \<open>Evaluation of the example runs\<close>

lemmas example_defs = getOrInstantiateRuntimeModule_def instantiateRuntimeModule_def
  instantiateModule.simps getOrInstantiateModuleFromParent.simps commonJsRequire.simps
  loadedExample_def loadChunkPath_def loadChunk_def isJs_examples initialState_def exampleEnv_def Let_def
  factoryA_def factoryB_def factoryT_def factoryR_def factoryQ_def factoryN_def factoryE_def
  factoryF_def newModule_def

lemma instantiated_T:
  "getOrInstantiateRuntimeModule 16 exampleEnv ''T'' ''throws.js'' (loadedExample ''throws.js'') =
     Some (instantiated ''T'' ''throws.js'')"
  "fst (instantiated ''T'' ''throws.js'') = Inl (Error ''boom'' None)"
  "moduleCache (snd (instantiated ''T'' ''throws.js'')) ''T'' = Some 0"
  "nextRef (loadedExample ''throws.js'') = 0"
  "moduleFactories (loadedExample ''throws.js'') ''T'' = Some factoryT"
  "moduleCache (loadedExample ''throws.js'') ''T'' = None"
  by (simp_all add: instantiated_def example_defs)

lemma instantiated_A:
  "getOrInstantiateRuntimeModule 16 exampleEnv ''A'' ''cycle.js'' (loadedExample ''cycle.js'') =
     Some (instantiated ''A'' ''cycle.js'')"
  "fst (instantiated ''A'' ''cycle.js'') = Inr 0"
  "nextRef (loadedExample ''cycle.js'') = 0"
  "moduleFactories (loadedExample ''cycle.js'') ''A'' = Some factoryA"
  "moduleCache (loadedExample ''cycle.js'') ''A'' = None"
  "history (snd (instantiated ''A'' ''cycle.js'')) =
     [ChunkRequired ''cycle.js'', FactoryCalled ''A'', FactoryCalled ''B'',
      RequireReturned ''B'' ''A'' 1 False, RequireReturned ''A'' ''B'' 3 True]"
  "objects (snd (instantiated ''A'' ''cycle.js'')) 3 ''a'' = Some (JSObject 1)"
  "exports (modules (snd (instantiated ''A'' ''cycle.js'')) 0) = 1"
  by (simp_all add: instantiated_def example_defs)

lemma instantiated_R:
  "getOrInstantiateRuntimeModule 16 exampleEnv ''R'' ''reassign.js'' (loadedExample ''reassign.js'') =
     Some (instantiated ''R'' ''reassign.js'')"
  "fst (instantiated ''R'' ''reassign.js'') = Inr 0"
  "history (snd (instantiated ''R'' ''reassign.js'')) =
     [ChunkRequired ''reassign.js'', FactoryCalled ''R'', FactoryCalled ''Q'',
      RequireReturned ''Q'' ''R'' 1 False, RequireReturned ''R'' ''Q'' 3 True,
      ExportsAssigned ''R'' 4]"
  "objects (snd (instantiated ''R'' ''reassign.js'')) 3 ''r'' = Some (JSObject 1)"
  "exports (modules (snd (instantiated ''R'' ''reassign.js'')) 0) = 4"
  by (simp_all add: instantiated_def example_defs)

lemma instantiated_E:
  "getOrInstantiateRuntimeModule 16 exampleEnv ''E'' ''early.js'' (loadedExample ''early.js'') =
     Some (instantiated ''E'' ''early.js'')"
  "fst (instantiated ''E'' ''early.js'') = Inr 0"
  "nextRef (loadedExample ''early.js'') = 0"
  "history (loadedExample ''early.js'') = [ChunkRequired ''early.js'']"
  "moduleFactories (loadedExample ''early.js'') ''E'' = Some factoryE"
  "moduleCache (loadedExample ''early.js'') ''E'' = None"
  "history (snd (instantiated ''E'' ''early.js'')) =
     [ChunkRequired ''early.js'', FactoryCalled ''E'', ExportsAssigned ''E'' 2, FactoryCalled ''F'',
      RequireReturned ''F'' ''E'' 2 False, RequireReturned ''E'' ''F'' 4 True]"
  "exports (modules (snd (instantiated ''E'' ''early.js'')) 0) = 2"
  by (simp_all add: instantiated_def example_defs)

lemma instantiated_N:
  "getOrInstantiateRuntimeModule 16 exampleEnv ''N'' ''null.js'' (loadedExample ''null.js'') =
     Some (instantiated ''N'' ''null.js'')"
  "fst (instantiated ''N'' ''null.js'') = Inl Null"
  "nextRef (loadedExample ''null.js'') = 0"
  "moduleFactories (loadedExample ''null.js'') ''N'' = Some factoryN"
  "moduleCache (loadedExample ''null.js'') ''N'' = None"
  "moduleCache (snd (instantiated ''N'' ''null.js'')) ''N'' = Some 0"
  "error (modules (snd (instantiated ''N'' ''null.js'')) 0) = Null"
  "loaded (modules (snd (instantiated ''N'' ''null.js'')) 0) = False"
  by (simp_all add: instantiated_def example_defs)

lemma instantiated_more:
  "moduleCache (snd (instantiated ''A'' ''cycle.js'')) ''B'' = Some 2"
  "moduleCache (snd (instantiated ''A'' ''cycle.js'')) ''T'' = None"
  "moduleFactories (snd (instantiated ''A'' ''cycle.js'')) ''T'' = None"
  "moduleCache (snd (instantiated ''T'' ''throws.js'')) ''B'' = None"
  "moduleFactories (snd (instantiated ''T'' ''throws.js'')) ''B'' = None"
  "history (snd (instantiated ''T'' ''throws.js'')) = [ChunkRequired ''throws.js'', FactoryCalled ''T'']"
  "error (modules (snd (instantiated ''T'' ''throws.js'')) 0) = Error ''boom'' None"
  "loaded (modules (snd (instantiated ''A'' ''cycle.js'')) 0)"
  "loaded (modules (snd (instantiated ''R'' ''reassign.js'')) 0)"
  "loaded (modules (snd (instantiated ''R'' ''reassign.js'')) 2)"
  "moduleFactories (loadedExample ''reassign.js'') ''R'' = Some factoryR"
  "moduleFactories (loadedExample ''reassign.js'') ''Q'' = Some factoryQ"
  "moduleCache (loadedExample ''reassign.js'') ''R'' = None"
  by (simp_all add: instantiated_def example_defs)

lemma laterCalls_performed:
  "performAll laterCalls (snd (instantiated ''A'' ''cycle.js'')) = Some (laterState ''A'' ''cycle.js'')"
  "performAll laterCalls (snd (instantiated ''T'' ''throws.js'')) = Some (laterState ''T'' ''throws.js'')"
  by (simp_all add: laterCalls_def laterState_def loadChunkAsync_cache(1)
      getOrInstantiateModuleFromParent.simps instantiated_more instantiated_T instantiateModule_missing
      loadChunkAsync_def loadChunkUncached_def isJs_examples Let_def exampleEnv_def
      split: option.splits)


subsection \<open>Instantiation: the claims\<close>

text \<open>
  Claim C2. When the id has no registered factory, \<^verbatim>\<open>instantiateModule\<close> throws an
  error whose message names the request: "as a runtime entry of chunk ..." for a
  runtime source, "because it was required from module ..." for a parent source. The
  state is returned as it was: the failed call creates no entry of the module cache.
  So do the two lookups when the id is not cached.
\<close>

theorem missing_factory_throws:
  assumes "moduleFactories s moduleId = None"
  shows "instantiateModule fuel E moduleId (Runtime chunkPath) s =
           Some (Inl (Error (''Module '' @ moduleId @ '' was instantiated as a runtime entry of chunk '' @
                             chunkPath @
                             '', but the module factory is not available. It might have been deleted in an HMR update.'')
                            None), s) \<and>
         instantiateModule fuel E moduleId (Parent parentId) s =
           Some (Inl (Error (''Module '' @ moduleId @
                             '' was instantiated because it was required from module '' @ parentId @
                             '', but the module factory is not available. It might have been deleted in an HMR update.'')
                            None), s) \<and>
         (moduleCache s moduleId = None \<longrightarrow>
            getOrInstantiateRuntimeModule fuel E moduleId chunkPath s =
              instantiateModule fuel E moduleId (Runtime chunkPath) s \<and>
            getOrInstantiateModuleFromParent fuel E moduleId sourceModule s =
              instantiateModule fuel E moduleId (Parent (mid (modules s sourceModule))) s)"
  using assms
  by (simp add: instantiateModule_missing factoryNotAvailable_def getOrInstantiateRuntimeModule_def
      instantiateRuntimeModule_def getOrInstantiateModuleFromParent.simps)

theorem missing_factory_throws_witness:
  "moduleFactories (loadedExample ''cycle.js'') ''gone'' = None \<and>
   moduleCache (loadedExample ''cycle.js'') ''gone'' = None \<and>
   getOrInstantiateRuntimeModule 0 exampleEnv ''gone'' ''cycle.js'' (loadedExample ''cycle.js'') =
     Some (Inl (Error ''Module gone was instantiated as a runtime entry of chunk cycle.js, but the module factory is not available. It might have been deleted in an HMR update.'' None),
           loadedExample ''cycle.js'') \<and>
   getOrInstantiateModuleFromParent 0 exampleEnv ''gone'' 7 (loadedExample ''cycle.js'') =
     Some (Inl (Error ''Module gone was instantiated because it was required from module , but the module factory is not available. It might have been deleted in an HMR update.'' None),
           loadedExample ''cycle.js'')"
proof -
  have h1: "moduleFactories (loadedExample ''cycle.js'') ''gone'' = None"
    and h2: "moduleCache (loadedExample ''cycle.js'') ''gone'' = None"
    and h3: "mid (modules (loadedExample ''cycle.js'') 7) = []"
    by (simp_all add: loadedExample_def loadChunkPath_def isJs_examples initialState_def
        exampleEnv_def Let_def)
  from missing_factory_throws [OF h1, of 0 exampleEnv "''cycle.js''" "[]" 7] h1 h2 h3
  show ?thesis by simp
qed

text \<open>
  Claim C3, as amended. The factory of a module threw the value \<open>err\<close> during its
  instantiation. Then the cache holds the record, with \<^verbatim>\<open>error\<close> equal to \<open>err\<close> and
  \<^verbatim>\<open>loaded\<close> false, and it stays so whatever calls follow:
  \<^verbatim>\<open>getOrInstantiateModuleFromParent\<close> for the id returns the broken record and does not
  throw; \<^verbatim>\<open>getOrInstantiateRuntimeModule\<close> for the id throws \<open>err\<close> when \<open>err\<close> is truthy
  (every \<^verbatim>\<open>Error\<close> object is) and returns the broken record when \<open>err\<close> is falsy;
  neither changes the state.
\<close>

theorem failed_module_lookups:
  assumes "moduleFactories s i = Some f"
    and "instantiateModule fuel E i source s = Some (Inl err, s1)"
    and "performAll calls s1 = Some s2"
  shows "moduleCache s2 i = Some (nextRef s) \<and>
         error (modules s2 (nextRef s)) = err \<and> \<not> loaded (modules s2 (nextRef s)) \<and>
         getOrInstantiateModuleFromParent fuel' E' i sourceModule s2 = Some (Inr (nextRef s), s2) \<and>
         getOrInstantiateRuntimeModule fuel' E' i chunkPath s2 =
           Some (if truthy err then Inl err else Inr (nextRef s), s2)"
proof -
  have rec: "moduleCache s1 i = Some (nextRef s)" "nextRef s < nextRef s1"
    "error (modules s1 (nextRef s)) = err" "\<not> loaded (modules s1 (nextRef s))"
    using instantiateModule_record [OF assms(1,2)] by simp_all
  have cache: "moduleCache s2 i = Some (nextRef s)"
    using performAll_cacheGrows [OF assms(3)] rec(1) by (simp add: cacheGrows_def)
  have "modules s2 (nextRef s) = modules s1 (nextRef s)"
    using performAll_storeKept [OF assms(3)] rec(2) by (simp add: storeKept_def)
  then have md: "error (modules s2 (nextRef s)) = err" "\<not> loaded (modules s2 (nextRef s))"
    using rec(3,4) by simp_all
  show ?thesis using cache md lookups_of_cached [OF cache] by simp
qed

theorem failed_module_lookups_witness:
  "moduleFactories (loadedExample ''throws.js'') ''T'' = Some factoryT \<and>
   instantiateModule 16 exampleEnv ''T'' (Runtime ''throws.js'') (loadedExample ''throws.js'') =
     Some (Inl (Error ''boom'' None), snd (instantiated ''T'' ''throws.js'')) \<and>
   performAll laterCalls (snd (instantiated ''T'' ''throws.js'')) = Some (laterState ''T'' ''throws.js'') \<and>
   moduleCache (laterState ''T'' ''throws.js'') ''T'' = Some 0 \<and>
   error (modules (laterState ''T'' ''throws.js'') 0) = Error ''boom'' None \<and>
   truthy (Error ''boom'' None) \<and>
   \<not> loaded (modules (laterState ''T'' ''throws.js'') 0) \<and>
   getOrInstantiateModuleFromParent 0 exampleEnv ''T'' 0 (laterState ''T'' ''throws.js'') =
     Some (Inr 0, laterState ''T'' ''throws.js'') \<and>
   getOrInstantiateRuntimeModule 0 exampleEnv ''T'' ''throws.js'' (laterState ''T'' ''throws.js'') =
     Some (Inl (Error ''boom'' None), laterState ''T'' ''throws.js'')"
proof -
  have h1: "moduleFactories (loadedExample ''throws.js'') ''T'' = Some factoryT"
    by (rule instantiated_T)
  have h2: "instantiateModule 16 exampleEnv ''T'' (Runtime ''throws.js'') (loadedExample ''throws.js'') =
      Some (Inl (Error ''boom'' None), snd (instantiated ''T'' ''throws.js''))"
    using instantiated_T(1,2,6)
    by (simp add: getOrInstantiateRuntimeModule_def instantiateRuntimeModule_def prod_eq_iff)
  have h3: "performAll laterCalls (snd (instantiated ''T'' ''throws.js'')) =
      Some (laterState ''T'' ''throws.js'')"
    by (rule laterCalls_performed)
  from failed_module_lookups [OF h1 h2 h3, of 0 exampleEnv 0 "''throws.js''"] h1 h2 h3 instantiated_T(4)
  show ?thesis by simp
qed

text \<open>
  Claim C3 as it is written fails for a factory that throws a falsy value: the factory
  of \<open>N\<close> throws \<^verbatim>\<open>null\<close>, the record of \<open>N\<close> is in the cache with \<^verbatim>\<open>error\<close> equal to
  \<^verbatim>\<open>null\<close> and \<^verbatim>\<open>loaded\<close> false, and the later call of \<^verbatim>\<open>getOrInstantiateRuntimeModule\<close>
  for \<open>N\<close> returns the record, it does not throw.
\<close>

theorem falsy_throw_returns_record:
  "moduleFactories (loadedExample ''null.js'') ''N'' = Some (ModuleFactory 8 [SThrow Null]) \<and>
   instantiateModule 16 exampleEnv ''N'' (Runtime ''null.js'') (loadedExample ''null.js'') =
     Some (Inl Null, snd (instantiated ''N'' ''null.js'')) \<and>
   moduleCache (snd (instantiated ''N'' ''null.js'')) ''N'' = Some 0 \<and>
   error (modules (snd (instantiated ''N'' ''null.js'')) 0) = Null \<and>
   \<not> loaded (modules (snd (instantiated ''N'' ''null.js'')) 0) \<and>
   getOrInstantiateRuntimeModule 16 exampleEnv ''N'' ''null.js'' (snd (instantiated ''N'' ''null.js'')) =
     Some (Inr 0, snd (instantiated ''N'' ''null.js''))"
  using instantiated_N
  by (simp add: getOrInstantiateRuntimeModule_def instantiateRuntimeModule_def prod_eq_iff
      factoryN_def)




text \<open>
  Claim C5, as amended. \<^verbatim>\<open>instantiateModule\<close> runs the factory of \<open>a\<close> on the state in
  which the new record (empty exports, \<^verbatim>\<open>loaded\<close> false, no error) is already in the
  module cache. Every require of \<open>a\<close> made while \<open>a\<close> is instantiated (by the module \<open>b\<close>
  of a cycle \<open>a \<rightarrow> b \<rightarrow> a\<close>, for one) receives its exports object from a record not yet
  loaded; and when the factory of \<open>a\<close> does not assign \<^verbatim>\<open>module.exports\<close> after that
  require returned, the object received is the very exports object that the record of
  \<open>a\<close> has when the instantiation is over. So it is for every such require when the
  factory of \<open>a\<close> has no assignment of \<^verbatim>\<open>module.exports\<close> at all: then the final exports
  object is the one the record was created with. The factory of \<open>a\<close> is called once, not
  again for the nested require. The instantiation does return when the bound is enough
  for the ids that can have a factory.
\<close>

theorem circular_require_sees_placeholder:
  assumes "moduleFactories s a = Some (ModuleFactory fn body)" and "moduleCache s a = None"
    and "instantiateModule fuel E a source s = Some (x, s')"
  shows "(\<exists>n y s2. fuel = Suc n \<and>
            callFactory (commonJsRequire n E (nextRef s)) E a (nextRef s) (Suc (nextRef s)) body
              (created a s) = Some (y, s2)) \<and>
         moduleCache (created a s) a = Some (nextRef s) \<and>
         modules (created a s) (nextRef s) =
           \<lparr>exports = Suc (nextRef s), error = Undefined, loaded = False, mid = a,
            namespaceObject = None\<rparr> \<and>
         objects (created a s) (Suc (nextRef s)) = Map.empty \<and>
         moduleCache s' a = Some (nextRef s) \<and>
         (\<forall>xs p r l ys.
            drop (length (history s)) (history s') = xs @ RequireReturned p a r l # ys \<longrightarrow>
            \<not> l \<and> ((\<forall>r'. ExportsAssigned a r' \<notin> set ys) \<longrightarrow> r = exports (modules s' (nextRef s)))) \<and>
         (SAssignExports \<notin> set body \<longrightarrow>
            exports (modules s' (nextRef s)) = Suc (nextRef s) \<and>
            (\<forall>p r l. RequireReturned p a r l \<in> set (drop (length (history s)) (history s')) \<longrightarrow>
               r = exports (modules s' (nextRef s)) \<and> \<not> l)) \<and>
         count_list (history s') (FactoryCalled a) = Suc (count_list (history s) (FactoryCalled a)) \<and>
         (\<forall>U n. fuelEnough U E n s \<longrightarrow> instantiateModule n E a source s \<noteq> None)"
proof -
  let ?m = "nextRef s" and ?e = "Suc (nextRef s)" and ?n = "length (history s)"
  let ?asg = "SAssignExports \<in> set body"
  have ret: "instantiateModule n E a source s \<noteq> None" if "fuelEnough U E n s" for U n
    using instantiateModule_returns [OF that assms(2)] by simp
  have "capturesCurrent a ?e ([] @ [FactoryCalled a])"
    by (rule capturesCurrent_other [OF capturesCurrent_Nil]) simp_all
  then have start: "inProgress a ?m ?n ?asg (created a s)"
    by (simp add: inProgress_def created_def newModule_def)
  have fin: "inProgress a ?m ?n ?asg s2"
    if "callFactory (commonJsRequire k E ?m) E a ?m ?e body (created a s) = Some (y, s2)" for k y s2
    by (rule callFactory_inProgress [OF that start]) (use commonJsRequire_inProgress in auto)
  have kept: "exports (modules s2 ?m) = ?e"
    if "callFactory (commonJsRequire k E ?m) E a ?m ?e body (created a s) = Some (y, s2)"
      and "\<not> ?asg" for k y s2
    using callFactory_exports_kept [OF that(1) _ that(2)] commonJsRequire_storeKept
    by (simp add: created_facts newModule_def)
  have rec: "moduleCache s' a = Some ?m"
    using instantiateModule_record [OF assms(1,3)] by simp
  have cnt: "count_list (history s') (FactoryCalled a) = Suc (count_list (history s) (FactoryCalled a))"
    using instantiateModule_cacheGrows [OF assms(3,2)] assms(2) rec by (simp add: cacheGrows_def)
  have cr: "moduleCache (created a s) a = Some ?m"
    "modules (created a s) ?m =
       \<lparr>exports = ?e, error = Undefined, loaded = False, mid = a, namespaceObject = None\<rparr>"
    "objects (created a s) ?e = Map.empty"
    by (simp_all add: created_facts newModule_def)
  from assms(3) obtain k y s2 where run: "fuel = Suc k"
      "callFactory (commonJsRequire k E ?m) E a ?m ?e body (created a s) = Some (y, s2)"
    and s': "history s' = history s2" "exports (modules s' ?m) = exports (modules s2 ?m)"
  proof (cases rule: instantiateModule_cases)
    case 1
    then show ?thesis using assms(1) by simp
  next
    case (2 fn' body' k err s2)
    then have "callFactory (commonJsRequire k E ?m) E a ?m ?e body (created a s) = Some (Inl err, s2)"
      using assms(1) by simp
    then show ?thesis using that 2(2,5) by (simp add: failed_def)
  next
    case (3 fn' body' k s2)
    then have "callFactory (commonJsRequire k E ?m) E a ?m ?e body (created a s) = Some (Inr (), s2)"
      using assms(1) by simp
    then show ?thesis using that 3(2,5) by (simp add: succeeded_def Let_def split: option.splits)
  qed
  let ?evs = "drop ?n (history s')" and ?final = "exports (modules s' ?m)"
  from fin [OF run(2)] s' have cc: "capturesCurrent a ?final ?evs"
    and na: "\<forall>r'. ExportsAssigned a r' \<in> set ?evs \<longrightarrow> ?asg"
    by (simp_all add: inProgress_def)
  have cap: "\<not> l \<and> ((\<forall>r'. ExportsAssigned a r' \<notin> set ys) \<longrightarrow> r = ?final)"
    if "?evs = xs @ RequireReturned p a r l # ys" for xs p r l ys
    using cc that unfolding capturesCurrent_def by blast
  have plain: "r = ?final \<and> \<not> l"
    if "\<not> ?asg" "RequireReturned p a r l \<in> set ?evs" for p r l
  proof -
    from that(2) obtain xs ys where split: "?evs = xs @ RequireReturned p a r l # ys"
      by (auto dest: split_list)
    then have "set ys \<subseteq> set ?evs" by auto
    then have "\<forall>r'. ExportsAssigned a r' \<notin> set ys" using na that(1) by blast
    then show ?thesis using cap [OF split] by blast
  qed
  have same: "?final = ?e" if "\<not> ?asg"
    using kept [OF run(2) that] s'(2) by simp
  show ?thesis using run rec cnt cr ret cap plain same by blast
qed

theorem circular_require_sees_placeholder_witness:
  "moduleFactories (loadedExample ''early.js'') ''E'' =
     Some (ModuleFactory 9 [SAssignExports, SExportRequire ''f'' ''F'']) \<and>
   moduleCache (loadedExample ''early.js'') ''E'' = None \<and>
   instantiateModule 16 exampleEnv ''E'' (Runtime ''early.js'') (loadedExample ''early.js'') =
     Some (Inr 0, snd (instantiated ''E'' ''early.js'')) \<and>
   drop (length (history (loadedExample ''early.js''))) (history (snd (instantiated ''E'' ''early.js''))) =
     [FactoryCalled ''E'', ExportsAssigned ''E'' 2, FactoryCalled ''F''] @
     RequireReturned ''F'' ''E'' 2 False # [RequireReturned ''E'' ''F'' 4 True] \<and>
   exports (modules (snd (instantiated ''E'' ''early.js'')) 0) = 2 \<and>
   moduleFactories (loadedExample ''cycle.js'') ''A'' =
     Some (ModuleFactory 1 [SExportRequire ''b'' ''B'', SExport ''name'' ''A'']) \<and>
   moduleCache (loadedExample ''cycle.js'') ''A'' = None \<and>
   instantiateModule 16 exampleEnv ''A'' (Runtime ''cycle.js'') (loadedExample ''cycle.js'') =
     Some (Inr 0, snd (instantiated ''A'' ''cycle.js'')) \<and>
   moduleCache (snd (instantiated ''A'' ''cycle.js'')) ''A'' = Some 0 \<and>
   exports (modules (snd (instantiated ''A'' ''cycle.js'')) 0) = 1 \<and>
   RequireReturned ''B'' ''A'' 1 False \<in>
     set (drop (length (history (loadedExample ''cycle.js''))) (history (snd (instantiated ''A'' ''cycle.js'')))) \<and>
   objects (snd (instantiated ''A'' ''cycle.js'')) 3 ''a'' = Some (JSObject 1) \<and>
   count_list (history (snd (instantiated ''A'' ''cycle.js''))) (FactoryCalled ''A'') = 1"
proof -
  have e1: "moduleFactories (loadedExample ''early.js'') ''E'' =
      Some (ModuleFactory 9 [SAssignExports, SExportRequire ''f'' ''F''])"
    using instantiated_E(5) by (simp add: factoryE_def)
  have e2: "moduleCache (loadedExample ''early.js'') ''E'' = None" by (rule instantiated_E)
  have e3: "instantiateModule 16 exampleEnv ''E'' (Runtime ''early.js'') (loadedExample ''early.js'') =
      Some (Inr 0, snd (instantiated ''E'' ''early.js''))"
    using instantiated_E(1,2,6)
    by (simp add: getOrInstantiateRuntimeModule_def instantiateRuntimeModule_def prod_eq_iff)
  have e4: "drop (length (history (loadedExample ''early.js'')))
        (history (snd (instantiated ''E'' ''early.js''))) =
      [FactoryCalled ''E'', ExportsAssigned ''E'' 2, FactoryCalled ''F''] @
      RequireReturned ''F'' ''E'' 2 False # [RequireReturned ''E'' ''F'' 4 True]"
    by (simp add: instantiated_E(4,7))
  note early = circular_require_sees_placeholder [OF e1 e2 e3]
  have "\<forall>r'. ExportsAssigned ''E'' r' \<notin> set [RequireReturned ''E'' ''F'' 4 True]" by simp
  then have "2 = exports (modules (snd (instantiated ''E'' ''early.js''))
      (nextRef (loadedExample ''early.js'')))"
    using early e4 by blast
  then have e5: "exports (modules (snd (instantiated ''E'' ''early.js'')) 0) = 2"
    by (simp add: instantiated_E(3))
  have h1: "moduleFactories (loadedExample ''cycle.js'') ''A'' =
      Some (ModuleFactory 1 [SExportRequire ''b'' ''B'', SExport ''name'' ''A''])"
    using instantiated_A(4) by (simp add: factoryA_def)
  have h2: "moduleCache (loadedExample ''cycle.js'') ''A'' = None" by (rule instantiated_A)
  have h4: "instantiateModule 16 exampleEnv ''A'' (Runtime ''cycle.js'') (loadedExample ''cycle.js'') =
      Some (Inr 0, snd (instantiated ''A'' ''cycle.js''))"
    using instantiated_A(1,2,5)
    by (simp add: getOrInstantiateRuntimeModule_def instantiateRuntimeModule_def prod_eq_iff)
  have h5: "history (loadedExample ''cycle.js'') = [ChunkRequired ''cycle.js'']"
    by (simp add: example_defs)
  note cycle = circular_require_sees_placeholder [OF h1 h2 h4]
  have h3: "SAssignExports \<notin> set [SExportRequire ''b'' ''B'', SExport ''name'' ''A'']" by simp
  have "moduleCache (snd (instantiated ''A'' ''cycle.js'')) ''A'' =
      Some (nextRef (loadedExample ''cycle.js''))"
    "exports (modules (snd (instantiated ''A'' ''cycle.js'')) (nextRef (loadedExample ''cycle.js''))) =
      Suc (nextRef (loadedExample ''cycle.js''))"
    "count_list (history (snd (instantiated ''A'' ''cycle.js''))) (FactoryCalled ''A'') =
      Suc (count_list (history (loadedExample ''cycle.js'')) (FactoryCalled ''A''))"
    using cycle h3 by blast+
  then have a: "moduleCache (snd (instantiated ''A'' ''cycle.js'')) ''A'' = Some 0"
    "exports (modules (snd (instantiated ''A'' ''cycle.js'')) 0) = 1"
    "count_list (history (snd (instantiated ''A'' ''cycle.js''))) (FactoryCalled ''A'') = 1"
    by (simp_all add: h5 instantiated_A(3))
  have b: "RequireReturned ''B'' ''A'' 1 False \<in>
      set (drop (length (history (loadedExample ''cycle.js'')))
        (history (snd (instantiated ''A'' ''cycle.js''))))"
    "objects (snd (instantiated ''A'' ''cycle.js'')) 3 ''a'' = Some (JSObject 1)"
    by (simp_all add: h5 instantiated_A(6,7))
  show ?thesis using e1 e2 e3 e4 e5 h1 h2 h4 a b by blast
qed

text \<open>
  Claim C5 as it is written fails when the factory of the first module assigns
  \<^verbatim>\<open>module.exports\<close> after its require: in the cycle \<open>R \<rightarrow> Q \<rightarrow> R\<close> the module \<open>Q\<close>
  received the exports object 1 of \<open>R\<close> (it is what \<open>Q\<close> exports as \<open>r\<close>), and when both
  factories are done the exports object of the record of \<open>R\<close> is the object 4.
\<close>

theorem reassigned_exports_differ:
  "moduleFactories (loadedExample ''reassign.js'') ''R'' =
     Some (ModuleFactory 6 [SRequire ''Q'', SAssignExports]) \<and>
   moduleFactories (loadedExample ''reassign.js'') ''Q'' =
     Some (ModuleFactory 7 [SExportRequire ''r'' ''R'']) \<and>
   getOrInstantiateRuntimeModule 16 exampleEnv ''R'' ''reassign.js'' (loadedExample ''reassign.js'') =
     Some (Inr 0, snd (instantiated ''R'' ''reassign.js'')) \<and>
   history (snd (instantiated ''R'' ''reassign.js'')) =
     [ChunkRequired ''reassign.js'', FactoryCalled ''R'', FactoryCalled ''Q'',
      RequireReturned ''Q'' ''R'' 1 False, RequireReturned ''R'' ''Q'' 3 True,
      ExportsAssigned ''R'' 4] \<and>
   objects (snd (instantiated ''R'' ''reassign.js'')) 3 ''r'' = Some (JSObject 1) \<and>
   loaded (modules (snd (instantiated ''R'' ''reassign.js'')) 0) \<and>
   loaded (modules (snd (instantiated ''R'' ''reassign.js'')) 2) \<and>
   exports (modules (snd (instantiated ''R'' ''reassign.js'')) 0) = 4"
  using instantiated_R instantiated_more(9-12)
  by (simp add: prod_eq_iff factoryR_def factoryQ_def)

end
